theory Spec2Isabelle
  imports Complex_Main "HOL-Library.AList"
begin

section \<open>Numbers and strings of the source language\<close>

text \<open>
  The quantities the scheduling code computes with (hours, minutes, head counts, shift
  identifiers) are whole numbers; they are modelled as \<^typ>\<open>int\<close>. Whole numbers are
  taken to be small enough to be printed in plain decimal notation, as every hour, minute
  and head count is.

  The remainder operator \<^verbatim>\<open>%\<close> of the source language truncates towards zero: the
  result has the sign of the dividend.
\<close>

definition js_rem :: "int \<Rightarrow> int \<Rightarrow> int" where
  "js_rem a b = sgn a * (\<bar>a\<bar> mod \<bar>b\<bar>)"

text \<open>\<^verbatim>\<open>Math.floor(a / b)\<close> on whole numbers with a positive divisor.\<close>

definition floor_div :: "int \<Rightarrow> int \<Rightarrow> int" where
  "floor_div a b = a div b"

text \<open>
  A quotient or a product that need not be a whole number is a double-precision number
  in the source language. Such a number is modelled by the rational it denotes, and an
  arithmetic operation by the exact operation followed by \<open>to_double\<close>: rounding to
  the nearest number with a significand of 53 bits, a tie going to the even significand.
  Overflow and subnormal numbers are not modelled; the magnitudes that occur (operator
  counts, call volumes, shares between 0 and 1) are far from both. A whole number below
  \<open>2^53\<close> in magnitude is a double as it stands.
\<close>

function bit_length :: "int \<Rightarrow> nat" where
  "bit_length n = (if n \<le> 0 then 0 else Suc (bit_length (n div 2)))"
  by pat_completeness auto
termination
  by (relation "measure nat") auto

declare bit_length.simps [simp del]

text \<open>The integer \<open>e\<close> with \<open>2^e \<le> x < 2^(e + 1)\<close>, for positive \<open>x\<close>.\<close>

definition floor_log2 :: "rat \<Rightarrow> int" where
  "floor_log2 x =
     (if 1 \<le> x then int (bit_length \<lfloor>x\<rfloor>) - 1
      else - int (bit_length (\<lceil>1 / x\<rceil> - 1)))"

definition round_half_even :: "rat \<Rightarrow> int" where
  "round_half_even y =
     (let f = \<lfloor>y\<rfloor>; d = y - of_int f
      in if d < 1 / 2 then f else if 1 / 2 < d then f + 1 else if even f then f else f + 1)"

definition to_double :: "rat \<Rightarrow> rat" where
  "to_double x =
     (if x = 0 then 0
      else
        let e = floor_log2 \<bar>x\<bar> - 52;
            m = round_half_even (\<bar>x\<bar> / 2 powi e)
        in sgn x * of_int m * 2 powi e)"

text \<open>
  \<^verbatim>\<open>n.toString()\<close> for a whole number: the decimal digits, most significant first,
  after a minus sign when the number is negative.
\<close>

definition digit_char :: "nat \<Rightarrow> char" where
  "digit_char d = char_of (48 + d)"

fun nat_toString :: "nat \<Rightarrow> string" where
  "nat_toString n =
     (if n < 10 then [digit_char n] else nat_toString (n div 10) @ [digit_char (n mod 10)])"

declare nat_toString.simps [simp del]

definition toString :: "int \<Rightarrow> string" where
  "toString n = (if n < 0 then CHR ''-'' # nat_toString (nat (- n)) else nat_toString (nat n))"

text \<open>\<^verbatim>\<open>s.padStart(2, "0")\<close>\<close>

definition padStart2 :: "string \<Rightarrow> string" where
  "padStart2 s = replicate (2 - length s) CHR ''0'' @ s"

text \<open>
  \<^verbatim>\<open>Number.parseInt(s, 10)\<close>: leading white space is skipped, an optional sign is
  read, then the longest run of decimal digits. With no digit the result is \<^verbatim>\<open>NaN\<close>,
  which is \<^const>\<open>None\<close> here.
\<close>

definition is_digit :: "char \<Rightarrow> bool" where
  "is_digit c \<longleftrightarrow> 48 \<le> (of_char c :: nat) \<and> (of_char c :: nat) \<le> 57"

definition digit_val :: "char \<Rightarrow> int" where
  "digit_val c = int (of_char c) - 48"

definition is_space :: "char \<Rightarrow> bool" where
  "is_space c \<longleftrightarrow> (of_char c :: nat) \<in> {9, 10, 11, 12, 13, 32}"

definition digits_value :: "string \<Rightarrow> int option" where
  "digits_value s =
     (let ds = takeWhile is_digit s
      in if ds = [] then None else Some (foldl (\<lambda>acc c. acc * 10 + digit_val c) 0 ds))"

definition parseInt :: "string \<Rightarrow> int option" where
  "parseInt s =
     (case dropWhile is_space s of
        [] \<Rightarrow> None
      | c # cs \<Rightarrow>
          if c = CHR ''-'' then map_option uminus (digits_value cs)
          else if c = CHR ''+'' then digits_value cs
          else digits_value (c # cs))"

text \<open>\<^verbatim>\<open>s.split(sep)\<close> for a one-character separator.\<close>

fun split :: "char \<Rightarrow> string \<Rightarrow> string list" where
  "split sep [] = [[]]"
| "split sep (c # cs) =
     (if c = sep then [] # split sep cs
      else (case split sep cs of [] \<Rightarrow> [[c]] | p # ps \<Rightarrow> (c # p) # ps))"

section \<open>Time helpers (\<^verbatim>\<open>src/lib/distribution-utils.ts\<close>)\<close>

definition formatTime :: "int \<Rightarrow> int \<Rightarrow> string" where
  "formatTime hour minute = padStart2 (toString hour) @ '':'' @ padStart2 (toString minute)"

text \<open>
  \<^verbatim>\<open>parseTime\<close> destructures the first two pieces of the split; a missing piece
  is \<^verbatim>\<open>undefined\<close>, which \<^verbatim>\<open>parseInt\<close> turns into \<^verbatim>\<open>NaN\<close>.
\<close>

record Time =
  hour :: "int option"
  minute :: "int option"

definition parseTime :: "string \<Rightarrow> Time" where
  "parseTime timeStr =
     (case split CHR '':'' timeStr of
        [] \<Rightarrow> \<lparr>hour = None, minute = None\<rparr>
      | [hourStr] \<Rightarrow> \<lparr>hour = parseInt hourStr, minute = None\<rparr>
      | hourStr # minuteStr # _ \<Rightarrow> \<lparr>hour = parseInt hourStr, minute = parseInt minuteStr\<rparr>)"

section \<open>Shift generation\<close>

record Province =
  province_id :: string
  province_name :: string
  province_zone_id :: string
  operators :: int
  work_start_time :: int
  work_end_time :: int

record BreakSchedule =
  firstBreak :: string
  secondBreak :: string
  thirdBreak :: string
  fourthBreak :: string

record OperatorShift =
  shiftId :: int
  startTime :: string
  endTime :: string
  duration :: int
  breakSchedule :: BreakSchedule

text \<open>
  One pass of the inner loop over \<^verbatim>\<open>j\<close>: the start and the end of the break that
  begins \<^verbatim>\<open>(j + 1) * breakInterval\<close> minutes after the shift's start.
\<close>

definition breakTime_entry :: "int \<Rightarrow> int \<Rightarrow> int \<Rightarrow> int \<Rightarrow> string \<times> string" where
  "breakTime_entry actualStartHour startMinute breakInterval j =
     (let breakStartMinutes =
            js_rem (actualStartHour * 60 + startMinute + (j + 1) * breakInterval) (24 * 60);
          breakStartHour = floor_div breakStartMinutes 60;
          breakStartMinute = js_rem breakStartMinutes 60;
          breakEndMinutes = js_rem (breakStartMinutes + 10) (24 * 60);
          breakEndHour = floor_div breakEndMinutes 60;
          breakEndMinute = js_rem breakEndMinutes 60
      in (formatTime breakStartHour breakStartMinute, formatTime breakEndHour breakEndMinute))"

definition break_string :: "string \<times> string \<Rightarrow> string" where
  "break_string b = fst b @ ''-'' @ snd b"

text \<open>
  The body of the outer loop of \<^verbatim>\<open>generateOperatorShifts\<close> in the library for
  operator index \<^verbatim>\<open>i\<close>: \<^const>\<open>None\<close> when the iteration is skipped by
  \<^verbatim>\<open>continue\<close>, the pushed shift otherwise.
\<close>

definition shift_for :: "Province \<Rightarrow> int \<Rightarrow> int \<Rightarrow> OperatorShift option" where
  "shift_for province shiftDuration i =
     (let startHour = work_start_time province;
          startMinute = js_rem (i * 15) 60;
          hourOffset = floor_div (i * 15) 60;
          actualStartHour = startHour + hourOffset
      in if actualStartHour \<ge> work_end_time province then None
         else
           let startTime = formatTime actualStartHour startMinute;
               endMinutes = js_rem (actualStartHour * 60 + startMinute + shiftDuration) (24 * 60);
               endHour = floor_div endMinutes 60;
               endMinute = js_rem endMinutes 60;
               endTime = formatTime endHour endMinute;
               breakInterval = floor_div shiftDuration 5;
               breakTimes = map (breakTime_entry actualStartHour startMinute breakInterval)
                              [0, 1, 2, 3]
           in Some \<lparr>shiftId = i + 1, startTime = startTime, endTime = endTime,
                    duration = shiftDuration,
                    breakSchedule = \<lparr>firstBreak = break_string (breakTimes ! 0),
                                      secondBreak = break_string (breakTimes ! 1),
                                      thirdBreak = break_string (breakTimes ! 2),
                                      fourthBreak = break_string (breakTimes ! 3)\<rparr>\<rparr>)"

text \<open>The outer loop, from index \<^verbatim>\<open>i\<close> on, pushing onto \<^verbatim>\<open>shifts\<close>.\<close>

function shifts_loop ::
  "Province \<Rightarrow> int \<Rightarrow> int \<Rightarrow> int \<Rightarrow> OperatorShift list \<Rightarrow> OperatorShift list" where
  "shifts_loop province operatorCount shiftDuration i shifts =
     (if i < operatorCount then
        (case shift_for province shiftDuration i of
           None \<Rightarrow> shifts_loop province operatorCount shiftDuration (i + 1) shifts
         | Some s \<Rightarrow> shifts_loop province operatorCount shiftDuration (i + 1) (shifts @ [s]))
      else shifts)"
  by pat_completeness auto
termination
  by (relation "measure (\<lambda>(province, operatorCount, shiftDuration, i, shifts).
                           nat (operatorCount - i))") auto

declare shifts_loop.simps [simp del]

definition generateOperatorShifts :: "Province \<Rightarrow> int \<Rightarrow> int \<Rightarrow> OperatorShift list" where
  "generateOperatorShifts province operatorCount shiftDuration =
     (if operatorCount \<le> 0 then [] else shifts_loop province operatorCount shiftDuration 0 [])"

text \<open>The default value of the third parameter.\<close>

definition default_shiftDuration :: int where
  "default_shiftDuration = 420"


section \<open>The generator inlined in the distribution page\<close>

text \<open>
  The page carries its own copy of \<^verbatim>\<open>formatTime\<close> and \<^verbatim>\<open>parseTime\<close>, word for
  word the library's, and its own \<^verbatim>\<open>generateOperatorShifts\<close> with two parameters:
  the duration is the constant \<^verbatim>\<open>fixedDuration = 420\<close> and break \<^verbatim>\<open>j\<close> starts
  \<^verbatim>\<open>(j + 1) * 60\<close> minutes after the shift's start.
\<close>

definition page_breakTime_entry :: "int \<Rightarrow> int \<Rightarrow> int \<Rightarrow> string \<times> string" where
  "page_breakTime_entry actualStartHour startMinute j =
     (let breakStartMinutes =
            js_rem (actualStartHour * 60 + startMinute + (j + 1) * 60) (24 * 60);
          breakStartHour = floor_div breakStartMinutes 60;
          breakStartMinute = js_rem breakStartMinutes 60;
          breakEndMinutes = js_rem (breakStartMinutes + 10) (24 * 60);
          breakEndHour = floor_div breakEndMinutes 60;
          breakEndMinute = js_rem breakEndMinutes 60
      in (formatTime breakStartHour breakStartMinute, formatTime breakEndHour breakEndMinute))"

definition page_shift_for :: "Province \<Rightarrow> int \<Rightarrow> OperatorShift option" where
  "page_shift_for province i =
     (let fixedDuration = 420;
          startHour = work_start_time province;
          startMinute = js_rem (i * 15) 60;
          hourOffset = floor_div (i * 15) 60;
          actualStartHour = startHour + hourOffset
      in if actualStartHour \<ge> work_end_time province then None
         else
           let startTime = formatTime actualStartHour startMinute;
               endMinutes = js_rem (actualStartHour * 60 + startMinute + fixedDuration) (24 * 60);
               endHour = floor_div endMinutes 60;
               endMinute = js_rem endMinutes 60;
               endTime = formatTime endHour endMinute;
               breakTimes = map (page_breakTime_entry actualStartHour startMinute) [0, 1, 2, 3]
           in Some \<lparr>shiftId = i + 1, startTime = startTime, endTime = endTime,
                    duration = fixedDuration,
                    breakSchedule = \<lparr>firstBreak = break_string (breakTimes ! 0),
                                      secondBreak = break_string (breakTimes ! 1),
                                      thirdBreak = break_string (breakTimes ! 2),
                                      fourthBreak = break_string (breakTimes ! 3)\<rparr>\<rparr>)"

function page_shifts_loop ::
  "Province \<Rightarrow> int \<Rightarrow> int \<Rightarrow> OperatorShift list \<Rightarrow> OperatorShift list" where
  "page_shifts_loop province operatorCount i shifts =
     (if i < operatorCount then
        (case page_shift_for province i of
           None \<Rightarrow> page_shifts_loop province operatorCount (i + 1) shifts
         | Some s \<Rightarrow> page_shifts_loop province operatorCount (i + 1) (shifts @ [s]))
      else shifts)"
  by pat_completeness auto
termination
  by (relation "measure (\<lambda>(province, operatorCount, i, shifts). nat (operatorCount - i))") auto

declare page_shifts_loop.simps [simp del]

definition page_generateOperatorShifts :: "Province \<Rightarrow> int \<Rightarrow> OperatorShift list" where
  "page_generateOperatorShifts province operatorCount =
     (if operatorCount \<le> 0 then [] else page_shifts_loop province operatorCount 0 [])"

section \<open>Operators needed and their distribution over provinces\<close>

text \<open>The response rate is any double; the call volume is a whole number.\<close>

definition calculateOperatorsNeeded :: "int \<Rightarrow> rat \<Rightarrow> int" where
  "calculateOperatorsNeeded callVolume responseRate =
     (if responseRate \<le> 0 then 0
      else \<lceil>to_double (rat_of_int callVolume / responseRate)\<rceil>)"

text \<open>
  A \<^verbatim>\<open>Record<string, number>\<close> is an association list with one entry per key;
  assignment is \<^const>\<open>AList.update\<close>. Every key that
  \<^verbatim>\<open>calculateOptimalDistribution\<close> reads has been assigned before, by the loop
  over the same provinces.
\<close>

type_synonym distribution = "(string \<times> int) list"

definition dist_get :: "distribution \<Rightarrow> string \<Rightarrow> int" where
  "dist_get distribution k = the (map_of distribution k)"

definition is_working :: "int list \<Rightarrow> Province \<Rightarrow> bool" where
  "is_working workingHours province \<longleftrightarrow>
     list_ex (\<lambda>hour. hour \<ge> work_start_time province \<and> hour < work_end_time province)
       workingHours"

text \<open>
  The loop over the provinces sorted by assigned count: \<^verbatim>\<open>break\<close> once nothing is in
  excess, else take \<^verbatim>\<open>min(excess, assigned - 1)\<close> from the province when that is
  positive.
\<close>

fun reduce_loop :: "int \<Rightarrow> Province list \<Rightarrow> distribution \<Rightarrow> int \<Rightarrow> distribution \<times> int" where
  "reduce_loop totalOperatorsNeeded [] distribution assignedOperators =
     (distribution, assignedOperators)"
| "reduce_loop totalOperatorsNeeded (province # rest) distribution assignedOperators =
     (if assignedOperators \<le> totalOperatorsNeeded then (distribution, assignedOperators)
      else
        let excess = assignedOperators - totalOperatorsNeeded;
            reduction = min excess (dist_get distribution (province_id province) - 1)
        in if reduction > 0
           then reduce_loop totalOperatorsNeeded rest
                  (AList.update (province_id province)
                     (dist_get distribution (province_id province) - reduction) distribution)
                  (assignedOperators - reduction)
           else reduce_loop totalOperatorsNeeded rest distribution assignedOperators)"

text \<open>
  The proportional count of one province. It is computed only when fewer operators are
  needed than are available; with a non-negative need the divisor is then positive.
\<close>

definition proportional_share :: "int \<Rightarrow> int \<Rightarrow> Province \<Rightarrow> int" where
  "proportional_share totalOperatorsNeeded totalAvailableOperators province =
     (let share = to_double (rat_of_int (operators province)
                             / rat_of_int totalAvailableOperators)
      in min \<lceil>to_double (rat_of_int totalOperatorsNeeded * share)\<rceil> (operators province))"

definition calculateOptimalDistribution ::
  "int \<Rightarrow> Province list \<Rightarrow> int list \<Rightarrow> distribution" where
  "calculateOptimalDistribution totalOperatorsNeeded provinces workingHours =
     (let workingProvinces = filter (is_working workingHours) provinces
      in if length workingProvinces = 0 then []
         else
           let totalAvailableOperators =
                 foldl (\<lambda>sum province. sum + operators province) 0 workingProvinces
           in if totalOperatorsNeeded \<ge> totalAvailableOperators
              then foldl (\<lambda>distribution province.
                            AList.update (province_id province) (operators province) distribution)
                     [] workingProvinces
              else
                let distribution =
                      foldl (\<lambda>distribution province.
                               AList.update (province_id province)
                                 (proportional_share totalOperatorsNeeded totalAvailableOperators
                                    province)
                                 distribution)
                        [] workingProvinces;
                    assignedOperators = foldl (\<lambda>sum count. sum + count) 0 (map snd distribution)
                in if assignedOperators > totalOperatorsNeeded
                   then
                     let sortedProvinces =
                           sort_key (\<lambda>province. - dist_get distribution (province_id province))
                             workingProvinces
                     in fst (reduce_loop totalOperatorsNeeded sortedProvinces distribution
                               assignedOperators)
                   else distribution)"

text \<open>The sum of the assigned counts of a returned mapping.\<close>

definition assigned_total :: "distribution \<Rightarrow> int" where
  "assigned_total distribution = sum_list (map snd distribution)"


section \<open>The distribution page\<close>

record Zone =
  zone_id :: string
  zone_name :: string
  provinces :: "Province list"

record ProvinceDistribution =
  provinceId :: string
  provinceName :: string
  operators_pd :: int
  breakTime :: int
  operatorShifts_pd :: "OperatorShift list"

record DistributionPeriod =
  hour_dp :: int
  label :: string
  totalCallVolume :: int
  provinces_dp :: "ProvinceDistribution list"

record CallVolume =
  hour_cv :: int
  volume :: int

record SystemParameters =
  attendance_duration :: int
  standard_break_time :: int
  average_response_rate :: int

text \<open>The component's state variables that the two handlers read and write.\<close>

record PageState =
  zones :: "Zone list"
  selectedZone :: string
  distribution :: "DistributionPeriod list"
  operatorShifts :: "(string \<times> OperatorShift list) list"
  calculated :: bool

text \<open>
  Comparisons with a parsed number: \<^verbatim>\<open>NaN\<close> (here \<^const>\<open>None\<close>) is neither less
  than nor equal to anything.
\<close>

definition num_less :: "int option \<Rightarrow> int option \<Rightarrow> bool" where
  "num_less a b = (case (a, b) of (Some x, Some y) \<Rightarrow> x < y | _ \<Rightarrow> False)"

definition num_eq :: "int option \<Rightarrow> int option \<Rightarrow> bool" where
  "num_eq a b = (case (a, b) of (Some x, Some y) \<Rightarrow> x = y | _ \<Rightarrow> False)"

text \<open>
  The callback of the \<^verbatim>\<open>activeShifts\<close> filter, the same expression in
  \<^verbatim>\<open>handleCalculate\<close> and in \<^verbatim>\<open>handleOperatorChange\<close>.
\<close>

definition activeShifts_filter :: "int \<Rightarrow> OperatorShift \<Rightarrow> bool" where
  "activeShifts_filter hour_arg shift =
     (let startTime = parseTime (startTime shift);
          endTime = parseTime (endTime shift)
      in (num_less (hour startTime) (Some hour_arg) \<or>
          (num_eq (hour startTime) (Some hour_arg) \<and> num_eq (minute startTime) (Some 0))) \<and>
         num_less (Some hour_arg) (hour endTime))"

text \<open>\<^verbatim>\<open>xs.slice(0, k)\<close>: a negative \<^verbatim>\<open>k\<close> counts from the end.\<close>

definition slice0 :: "int \<Rightarrow> 'a list \<Rightarrow> 'a list" where
  "slice0 k xs = (if k < 0 then take (nat (int (length xs) + k)) xs else take (nat k) xs)"

text \<open>\<^verbatim>\<open>record[key] || []\<close>\<close>

definition shifts_of :: "(string \<times> OperatorShift list) list \<Rightarrow> string \<Rightarrow> OperatorShift list" where
  "shifts_of record_arg key = (case map_of record_arg key of None \<Rightarrow> [] | Some shifts \<Rightarrow> shifts)"

text \<open>\<^verbatim>\<open>parameters?.average_response_rate || 80\<close> and its sibling: zero is falsy.\<close>

definition averageResponseRate_of :: "SystemParameters option \<Rightarrow> int" where
  "averageResponseRate_of parameters =
     (case parameters of None \<Rightarrow> 80
      | Some ps \<Rightarrow> if average_response_rate ps = 0 then 80 else average_response_rate ps)"

definition standardBreakTime_of :: "SystemParameters option \<Rightarrow> int" where
  "standardBreakTime_of parameters =
     (case parameters of None \<Rightarrow> 10
      | Some ps \<Rightarrow> if standard_break_time ps = 0 then 10 else standard_break_time ps)"

text \<open>
  \<^verbatim>\<open>callVolumeData?.find((item) => item.hour === hour)?.volume || 0\<close>; the fetched
  data may be \<^verbatim>\<open>null\<close>.
\<close>

definition callVolume_at :: "CallVolume list option \<Rightarrow> int \<Rightarrow> int" where
  "callVolume_at callVolumeData hour_arg =
     (case callVolumeData of None \<Rightarrow> 0
      | Some items \<Rightarrow>
          (case find (\<lambda>item. hour_cv item = hour_arg) items of None \<Rightarrow> 0
           | Some item \<Rightarrow> volume item))"

text \<open>
  The operator count \<^verbatim>\<open>handleCalculate\<close> computes for a province at an hour, before
  the roster is filtered.
\<close>

definition provinceOperators_at :: "Zone \<Rightarrow> int \<Rightarrow> int \<Rightarrow> int \<Rightarrow> Province \<Rightarrow> int" where
  "provinceOperators_at zone averageResponseRate callVolume hour_arg province =
     (let isWorking = hour_arg \<ge> work_start_time province \<and> hour_arg < work_end_time province;
          totalProvinceOperators = foldl (\<lambda>sum p. sum + operators p) 0 (provinces zone);
          provinceShare = (if totalProvinceOperators > 0
                           then to_double (rat_of_int (operators province)
                                           / rat_of_int totalProvinceOperators)
                           else 0);
          totalOperatorsNeeded =
            \<lceil>to_double (rat_of_int callVolume / rat_of_int averageResponseRate)\<rceil>
      in if isWorking
         then min \<lceil>to_double (rat_of_int totalOperatorsNeeded * provinceShare)\<rceil>
                (operators province)
         else 0)"

text \<open>The callback that builds one province's entry of one hour.\<close>

definition provinceDistribution_at ::
  "Zone \<Rightarrow> int \<Rightarrow> int \<Rightarrow> (string \<times> OperatorShift list) list \<Rightarrow> int \<Rightarrow> int \<Rightarrow> Province
     \<Rightarrow> ProvinceDistribution" where
  "provinceDistribution_at zone averageResponseRate standardBreakTime allOperatorShifts
       callVolume hour_arg province =
     (let provinceOperators =
            provinceOperators_at zone averageResponseRate callVolume hour_arg province;
          operatorsOnBreak = floor_div provinceOperators 6;
          breakTime = operatorsOnBreak * standardBreakTime;
          shifts = shifts_of allOperatorShifts (province_id province);
          activeShifts = slice0 provinceOperators (filter (activeShifts_filter hour_arg) shifts)
      in \<lparr>provinceId = province_id province, provinceName = province_name province,
          operators_pd = int (length activeShifts), breakTime = breakTime,
          operatorShifts_pd = activeShifts\<rparr>)"

definition workingHours_page :: "int list" where
  "workingHours_page = map (\<lambda>i. int i + 7) [0..<15]"

definition allOperatorShifts_of :: "Zone \<Rightarrow> (string \<times> OperatorShift list) list" where
  "allOperatorShifts_of zone =
     foldl (\<lambda>allOperatorShifts province.
              AList.update (province_id province)
                (page_generateOperatorShifts province (operators province)) allOperatorShifts)
       [] (provinces zone)"

definition newDistribution_of ::
  "Zone \<Rightarrow> CallVolume list option \<Rightarrow> SystemParameters option \<Rightarrow> DistributionPeriod list" where
  "newDistribution_of zone callVolumeData parameters =
     (let averageResponseRate = averageResponseRate_of parameters;
          standardBreakTime = standardBreakTime_of parameters;
          allOperatorShifts = allOperatorShifts_of zone
      in map (\<lambda>hour_arg.
                let callVolume = callVolume_at callVolumeData hour_arg
                in \<lparr>hour_dp = hour_arg,
                    label = toString hour_arg @ '':00 - '' @ toString (hour_arg + 1) @ '':00'',
                    totalCallVolume = callVolume,
                    provinces_dp =
                      map (provinceDistribution_at zone averageResponseRate standardBreakTime
                             allOperatorShifts callVolume hour_arg)
                        (provinces zone)\<rparr>)
           workingHours_page)"

text \<open>
  \<^verbatim>\<open>handleCalculate\<close>, given what the two queries returned. Without a selected zone,
  or when no zone has the selected identifier, the state stays as it is.
\<close>

definition handleCalculate ::
  "CallVolume list option \<Rightarrow> SystemParameters option \<Rightarrow> PageState \<Rightarrow> PageState" where
  "handleCalculate callVolumeData parameters st =
     (if selectedZone st = [] then st
      else
        (case find (\<lambda>z. zone_id z = selectedZone st) (zones st) of
           None \<Rightarrow> st
         | Some zone \<Rightarrow>
             st\<lparr>operatorShifts := allOperatorShifts_of zone,
                distribution := newDistribution_of zone callVolumeData parameters,
                calculated := True\<rparr>))"

text \<open>
  \<^verbatim>\<open>handleOperatorChange\<close>. Reading a field of an array element that does not exist
  throws a \<^verbatim>\<open>TypeError\<close>; the handler then returns nothing, which is \<^const>\<open>None\<close>.
\<close>

definition handleOperatorChange :: "nat \<Rightarrow> nat \<Rightarrow> int \<Rightarrow> PageState \<Rightarrow> PageState option" where
  "handleOperatorChange hourIndex provinceIndex change st =
     (let newDistribution = distribution st
      in if hourIndex \<ge> length newDistribution then None
         else
           let period = newDistribution ! hourIndex
           in if provinceIndex \<ge> length (provinces_dp period) then None
              else
                let entry = provinces_dp period ! provinceIndex;
                    currentOperators = operators_pd entry;
                    zone = find (\<lambda>z. zone_id z = selectedZone st) (zones st)
                in if (case zone of None \<Rightarrow> False
                       | Some z \<Rightarrow> provinceIndex \<ge> length (provinces z)) then None
                   else
                     let maxOperators =
                           (case zone of None \<Rightarrow> 0
                            | Some z \<Rightarrow> operators (provinces z ! provinceIndex));
                         newOperators = max 0 (min (currentOperators + change) maxOperators);
                         standardBreakTime = 10;
                         operatorsOnBreak = floor_div newOperators 6;
                         provinceId = provinceId entry;
                         allShifts = shifts_of (operatorShifts st) provinceId;
                         hour_arg = hour_dp period;
                         activeShifts =
                           slice0 newOperators (filter (activeShifts_filter hour_arg) allShifts);
                         entry' = entry\<lparr>operators_pd := newOperators,
                                        breakTime := operatorsOnBreak * standardBreakTime,
                                        operatorShifts_pd := activeShifts\<rparr>;
                         period' = period\<lparr>provinces_dp :=
                                             (provinces_dp period)[provinceIndex := entry']\<rparr>
                     in Some (st\<lparr>distribution := newDistribution[hourIndex := period']\<rparr>))"

section \<open>Example data\<close>

text \<open>A province staffed from 7 to 22, as in the examples of the specification.\<close>

definition province_7_22 :: "int \<Rightarrow> Province" where
  "province_7_22 n =
     \<lparr>province_id = ''p1'', province_name = ''P1'', province_zone_id = ''z1'', operators = n,
      work_start_time = 7, work_end_time = 22\<rparr>"

text \<open>A province staffed from 7 to 22 with a given identifier and head count.\<close>

definition province_op :: "string \<Rightarrow> int \<Rightarrow> Province" where
  "province_op ident n =
     \<lparr>province_id = ident, province_name = ident, province_zone_id = ''z1'', operators = n,
      work_start_time = 7, work_end_time = 22\<rparr>"

text \<open>
  A zone with one province of six operators, the call volumes of two hours, the page
  before any calculation, and the entry that \<^const>\<open>handleCalculate\<close> computes for the
  province at hour 8 together with a page state that shows it.
\<close>

definition example_zone :: Zone where
  "example_zone = \<lparr>zone_id = ''z1'', zone_name = ''Z1'', provinces = [province_7_22 6]\<rparr>"

definition example_callVolumes :: "CallVolume list option" where
  "example_callVolumes = Some [\<lparr>hour_cv = 7, volume = 1000\<rparr>, \<lparr>hour_cv = 8, volume = 1000\<rparr>]"

definition example_state :: PageState where
  "example_state =
     \<lparr>zones = [example_zone], selectedZone = ''z1'', distribution = [], operatorShifts = [],
      calculated = False\<rparr>"

definition calculated_entry :: ProvinceDistribution where
  "calculated_entry =
     provinceDistribution_at example_zone 80 10 (allOperatorShifts_of example_zone) 1000 8
       (province_7_22 6)"

definition calculated_state :: PageState where
  "calculated_state =
     \<lparr>zones = [example_zone], selectedZone = ''z1'',
      distribution =
        [\<lparr>hour_dp = 8, label = ''8:00 - 9:00'', totalCallVolume = 1000,
          provinces_dp = [calculated_entry]\<rparr>],
      operatorShifts = allOperatorShifts_of example_zone, calculated = True\<rparr>"

text \<open>
  A zone of two provinces with 58 and 12 operators and 2800 calls at hour 7, for which
  the share \<open>58 / 70\<close> and its product with the 35 operators needed are not exact in
  double precision; the page before any calculation; stored system parameters with a
  given standard break time.
\<close>

definition rounding_zone :: Zone where
  "rounding_zone =
     \<lparr>zone_id = ''z1'', zone_name = ''Z1'',
      provinces = [province_op ''A'' 58, province_op ''B'' 12]\<rparr>"

definition rounding_callVolumes :: "CallVolume list option" where
  "rounding_callVolumes = Some [\<lparr>hour_cv = 7, volume = 2800\<rparr>]"

definition rounding_state :: PageState where
  "rounding_state =
     \<lparr>zones = [rounding_zone], selectedZone = ''z1'', distribution = [], operatorShifts = [],
      calculated = False\<rparr>"

definition stored_parameters :: "int \<Rightarrow> SystemParameters" where
  "stored_parameters b =
     \<lparr>attendance_duration = 420, standard_break_time = b, average_response_rate = 80\<rparr>"

section \<open>Formatting and parsing times\<close>

lemma of_char_digit_char: "d < 10 \<Longrightarrow> (of_char (digit_char d) :: nat) = 48 + d"
  by (simp add: digit_char_def)

lemma digit_val_digit_char: "d < 10 \<Longrightarrow> digit_val (digit_char d) = int d"
  by (simp add: digit_val_def of_char_digit_char)

lemma is_digit_digit_char: "d < 10 \<Longrightarrow> is_digit (digit_char d)"
  by (simp add: is_digit_def of_char_digit_char)

lemma nat_toString_digits: "c \<in> set (nat_toString n) \<Longrightarrow> is_digit c"
proof (induction n rule: nat_toString.induct)
  case (1 n)
  show ?case
  proof (cases "n < 10")
    case True
    with "1.prems" show ?thesis
      by (simp add: nat_toString.simps [of n] is_digit_digit_char)
  next
    case False
    with "1.prems" "1.IH" show ?thesis
      by (auto simp add: nat_toString.simps [of n] is_digit_digit_char)
  qed
qed

lemma nat_toString_not_Nil: "nat_toString n \<noteq> []"
  by (subst nat_toString.simps) simp

lemma nat_toString_value:
  "foldl (\<lambda>acc c. acc * 10 + digit_val c) 0 (nat_toString n) = int n"
proof (induction n rule: nat_toString.induct)
  case (1 n)
  show ?case
  proof (cases "n < 10")
    case True
    then show ?thesis
      by (simp add: nat_toString.simps [of n] digit_val_digit_char)
  next
    case False
    have "int (n div 10) * 10 + int (n mod 10) = int n"
      by presburger
    with False "1.IH" show ?thesis
      by (simp add: nat_toString.simps [of n] digit_val_digit_char)
  qed
qed

lemma digits_value_all_digits:
  assumes "ds \<noteq> []" and "\<And>c. c \<in> set ds \<Longrightarrow> is_digit c"
  shows "digits_value ds = Some (foldl (\<lambda>acc c. acc * 10 + digit_val c) 0 ds)"
proof -
  from assms(2) have tw: "takeWhile is_digit ds = ds"
    by (simp add: takeWhile_eq_all_conv)
  show ?thesis
    unfolding digits_value_def Let_def tw using assms(1) by simp
qed

lemma is_digit_zero: "is_digit CHR ''0''"
  by (simp add: is_digit_def)

lemma digit_val_zero: "digit_val CHR ''0'' = 0"
  by (simp add: digit_val_def)

lemma digits_value_padded: "digits_value (padStart2 (nat_toString n)) = Some (int n)"
proof -
  let ?f = "\<lambda>acc c. acc * 10 + digit_val c"
  have zeros: "foldl ?f 0 (replicate k CHR ''0'') = 0" for k
    by (induction k) (simp_all add: digit_val_zero)
  have "digits_value (padStart2 (nat_toString n)) =
        Some (foldl ?f 0 (padStart2 (nat_toString n)))"
    by (rule digits_value_all_digits)
       (auto simp add: padStart2_def nat_toString_not_Nil is_digit_zero nat_toString_digits)
  also have "foldl ?f 0 (padStart2 (nat_toString n)) = int n"
    by (simp add: padStart2_def zeros nat_toString_value)
  finally show ?thesis .
qed

lemma is_digit_simps:
  "is_digit c \<Longrightarrow> \<not> is_space c"
  "is_digit c \<Longrightarrow> c \<noteq> CHR ''-''"
  "is_digit c \<Longrightarrow> c \<noteq> CHR ''+''"
  "is_digit c \<Longrightarrow> c \<noteq> CHR '':''"
  by (auto simp add: is_digit_def is_space_def)

lemma padStart2_nat_digits: "c \<in> set (padStart2 (nat_toString n)) \<Longrightarrow> is_digit c"
  by (auto simp add: padStart2_def is_digit_zero nat_toString_digits)

lemma padStart2_nat_not_Nil: "padStart2 (nat_toString n) \<noteq> []"
  by (simp add: padStart2_def nat_toString_not_Nil)

lemma parseInt_nonneg: "parseInt (padStart2 (nat_toString n)) = Some (int n)"
proof (cases "padStart2 (nat_toString n)")
  case Nil
  then show ?thesis by (simp add: padStart2_nat_not_Nil)
next
  case (Cons c cs)
  then have "is_digit c"
    using padStart2_nat_digits [of c n] by simp
  then have "parseInt (c # cs) = digits_value (c # cs)"
    by (simp add: parseInt_def is_digit_simps)
  with Cons show ?thesis
    using digits_value_padded [of n] by simp
qed

lemma parseInt_neg: "parseInt (CHR ''-'' # nat_toString n) = Some (- int n)"
proof -
  have "digits_value (nat_toString n) = Some (int n)"
    using digits_value_all_digits [of "nat_toString n"]
    by (simp add: nat_toString_not_Nil nat_toString_digits nat_toString_value)
  then show ?thesis
    by (simp add: parseInt_def is_space_def)
qed

lemma padStart2_toString:
  "padStart2 (toString n) =
     (if n < 0 then CHR ''-'' # nat_toString (nat (- n)) else padStart2 (nat_toString (nat n)))"
proof -
  have "0 < length (nat_toString k)" for k
    by (simp add: nat_toString_not_Nil)
  then have "2 - length (CHR ''-'' # nat_toString k) = 0" for k
    by (simp add: Suc_leI)
  then show ?thesis
    by (simp add: toString_def padStart2_def)
qed

lemma parseInt_padStart2_toString: "parseInt (padStart2 (toString n)) = Some n"
  by (simp add: padStart2_toString parseInt_nonneg parseInt_neg)

lemma colon_notin_padStart2_toString: "CHR '':'' \<notin> set (padStart2 (toString n))"
proof -
  have "CHR '':'' \<notin> set (nat_toString k)" for k
    using nat_toString_digits is_digit_simps(4) by blast
  moreover have "CHR '':'' \<notin> set (padStart2 (nat_toString k))" for k
    using padStart2_nat_digits is_digit_simps(4) by blast
  ultimately show ?thesis
    by (simp add: padStart2_toString)
qed

lemma split_no_sep: "sep \<notin> set s \<Longrightarrow> split sep s = [s]"
  by (induction s) auto

lemma split_two: "sep \<notin> set a \<Longrightarrow> sep \<notin> set b \<Longrightarrow> split sep (a @ sep # b) = [a, b]"
  by (induction a) (auto simp add: split_no_sep)

lemma parseTime_formatTime:
  "parseTime (formatTime h m) = \<lparr>hour = Some h, minute = Some m\<rparr>"
  by (simp add: parseTime_def formatTime_def split_two colon_notin_padStart2_toString
      parseInt_padStart2_toString)

section \<open>Rounding to double precision\<close>

lemma bit_length_bounds:
  "0 < n \<Longrightarrow> 2 ^ (bit_length n - 1) \<le> n \<and> n < 2 ^ bit_length n"
proof (induction n rule: bit_length.induct)
  case (1 n)
  show ?case
  proof (cases "n = 1")
    case True
    have "bit_length 0 = 0"
      by (simp add: bit_length.simps [of 0])
    then have "bit_length 1 = 1"
      by (simp add: bit_length.simps [of 1])
    with True show ?thesis by simp
  next
    case False
    with "1.prems" have half: "0 < n div 2" by simp
    let ?b = "bit_length (n div 2)"
    from "1.prems" have unfold: "bit_length n = Suc ?b"
      by (simp add: bit_length.simps [of n])
    from "1.prems" half "1.IH" have ih: "2 ^ (?b - 1) \<le> n div 2" "n div 2 < 2 ^ ?b"
      by simp_all
    from half have "?b \<noteq> 0"
      by (simp add: bit_length.simps [of "n div 2"])
    then have "(2::int) ^ ?b = 2 * 2 ^ (?b - 1)"
      by (cases ?b) simp_all
    with ih(1) have lower: "2 ^ ?b \<le> n" by simp
    from ih(2) have upper: "n < 2 * 2 ^ ?b" by simp
    from lower upper show ?thesis
      by (simp add: unfold)
  qed
qed

lemma floor_log2_le:
  assumes "0 < x"
  shows "2 powi floor_log2 x \<le> x"
proof (cases "1 \<le> x")
  case True
  then have pos: "0 < \<lfloor>x\<rfloor>" by simp
  let ?b = "bit_length \<lfloor>x\<rfloor>"
  from pos have "?b \<noteq> 0"
    by (simp add: bit_length.simps [of "\<lfloor>x\<rfloor>"])
  then have exp: "floor_log2 x = int (?b - 1)"
    using True by (simp add: floor_log2_def)
  from bit_length_bounds [OF pos] have "(2::int) ^ (?b - 1) \<le> \<lfloor>x\<rfloor>"
    by simp
  then have "(of_int ((2::int) ^ (?b - 1)) :: rat) \<le> of_int \<lfloor>x\<rfloor>"
    by (simp only: of_int_le_iff)
  also have "\<dots> \<le> x" by simp
  finally show ?thesis
    by (simp add: exp)
next
  case False
  let ?c = "\<lceil>1 / x\<rceil>"
  let ?b = "bit_length (?c - 1)"
  from False assms have "1 < 1 / x" by simp
  then have c: "0 < ?c - 1"
    by (simp add: less_ceiling_iff)
  from False have exp: "floor_log2 x = - int ?b"
    by (simp add: floor_log2_def)
  from bit_length_bounds [OF c] have "?c - 1 < 2 ^ ?b" by simp
  then have cb: "?c \<le> 2 ^ ?b" by simp
  have "1 / x \<le> of_int ?c" by (rule le_of_int_ceiling)
  also from cb have "(of_int ?c :: rat) \<le> of_int (2 ^ ?b)"
    by (simp only: of_int_le_iff)
  also have "(of_int (2 ^ ?b) :: rat) = 2 ^ ?b" by simp
  finally have "1 / x \<le> 2 ^ ?b" .
  with assms have "1 / 2 ^ ?b \<le> x"
    by (simp add: field_simps)
  then show ?thesis
    by (simp add: exp power_int_minus field_simps)
qed

lemma round_half_even_lower: "y - 1 / 2 \<le> of_int (round_half_even y)"
  unfolding round_half_even_def Let_def by (auto simp add: not_less) linarith+

lemma round_half_even_le_ceiling: "round_half_even y \<le> \<lceil>y\<rceil>"
proof -
  have "\<lfloor>y\<rfloor> \<le> \<lceil>y\<rceil>" by (rule floor_le_ceiling)
  moreover have "\<lfloor>y\<rfloor> + 1 \<le> \<lceil>y\<rceil>" if "0 < y - of_int \<lfloor>y\<rfloor>"
    using that by (metis add.commute ceiling_altdef diff_gt_0_iff_gt order_less_irrefl order_refl)
  ultimately show ?thesis
    unfolding round_half_even_def Let_def by auto
qed

lemma ceiling_to_double_quotient:
  assumes "0 \<le> v" and "v < 2 ^ 53" and "0 < k"
  shows "\<lceil>to_double (of_int v / of_int k)\<rceil> = \<lceil>(of_int v / of_int k :: rat)\<rceil>"
proof (cases "v = 0")
  case True
  then show ?thesis by (simp add: to_double_def)
next
  case False
  define x :: rat where "x = of_int v / of_int k"
  define N where "N = \<lceil>x\<rceil>"
  define e where "e = floor_log2 x - 52"
  define j where "j = nat (- e)"
  define y where "y = x * 2 ^ j"
  define m where "m = round_half_even y"
  from False assms have vpos: "0 < v" by simp
  with assms(3) have xpos: "0 < x" by (simp add: x_def)
  from assms(3) vpos have "x \<le> of_int v"
    by (simp add: x_def field_simps mult_le_cancel_left_pos)
  also from assms(2) have "(of_int v :: rat) < 2 ^ 53"
    by (metis of_int_less_iff of_int_numeral of_int_power)
  finally have xlt: "x < 2 ^ 53" .
  note norm = floor_log2_le [OF xpos]
  have e_le: "e \<le> 0"
  proof (rule ccontr)
    assume "\<not> e \<le> 0"
    then have "53 \<le> nat (floor_log2 x)" and nonneg: "0 \<le> floor_log2 x"
      by (simp_all add: e_def)
    then have "(2::rat) ^ 53 \<le> 2 ^ nat (floor_log2 x)"
      by (intro power_increasing) simp_all
    also from nonneg have "\<dots> = 2 powi floor_log2 x"
      by (simp add: power_int_def)
    also note norm
    finally show False using xlt by simp
  qed
  then have scale: "(2::rat) powi e = 1 / 2 ^ j"
    by (simp add: j_def power_int_def inverse_eq_divide power_one_over)
  have "(2::rat) powi floor_log2 x = 2 powi e * 2 powi 52"
    unfolding e_def by (subst power_int_add [symmetric]) simp_all
  with norm have "2 ^ 52 / 2 ^ j \<le> x"
    by (simp add: scale)
  then have ylow: "2 ^ 52 \<le> y"
    by (simp add: y_def field_simps)
  have y_eq: "x / 2 powi e = y"
    by (simp add: scale y_def)
  have "to_double x = of_int (round_half_even (x / 2 powi e)) * 2 powi e"
    using xpos by (simp add: to_double_def Let_def e_def)
  also have "\<dots> = of_int m / 2 ^ j"
    by (simp add: m_def scale y_def)
  finally have dbl: "to_double x = of_int m / 2 ^ j" .
  \<comment> \<open>the rounded quotient does not exceed the ceiling\<close>
  have "x \<le> of_int N" by (simp add: N_def)
  then have "y \<le> of_int (N * 2 ^ j)"
    by (simp add: y_def)
  then have "\<lceil>y\<rceil> \<le> N * 2 ^ j"
    by (simp only: ceiling_le_iff)
  with round_half_even_le_ceiling [of y] have "m \<le> N * 2 ^ j"
    by (simp add: m_def)
  then have "(of_int m :: rat) \<le> of_int (N * 2 ^ j)"
    by (simp only: of_int_le_iff)
  then have upper: "of_int m / 2 ^ j \<le> (of_int N :: rat)"
    by (simp add: field_simps)
  \<comment> \<open>and it stays above the integer below\<close>
  have "of_int (N - 1) < x"
    unfolding N_def using ceiling_correct [of x] by simp
  with assms(3) have "of_int ((N - 1) * k) < (of_int v :: rat)"
    by (simp add: x_def field_simps)
  then have "(N - 1) * k < v"
    by (simp only: of_int_less_iff)
  then have "(N - 1) * k + 1 \<le> v" by simp
  then have "(of_int ((N - 1) * k + 1) :: rat) \<le> of_int v"
    by (simp only: of_int_le_iff)
  with assms(3) have "(of_int ((N - 1) * k + 1) :: rat) / of_int k \<le> of_int v / of_int k"
    by (intro divide_right_mono) simp_all
  moreover from assms(3)
  have "(of_int ((N - 1) * k + 1) :: rat) / of_int k = of_int (N - 1) + 1 / of_int k"
    by (simp add: add_divide_distrib)
  ultimately have gap: "of_int (N - 1) + 1 / of_int k \<le> x"
    by (simp add: x_def)
  from ylow have "2 ^ 52 * of_int k \<le> of_int v * (2::rat) ^ j"
    using assms(3) by (simp add: y_def x_def field_simps)
  also have "\<dots> < 2 ^ 53 * 2 ^ j"
    using \<open>(of_int v :: rat) < 2 ^ 53\<close> by simp
  finally have "(of_int k :: rat) < 2 * 2 ^ j"
    by simp
  with assms(3) have half: "1 / 2 < (2::rat) ^ j / of_int k"
    by (simp add: field_simps)
  from gap have "(of_int (N - 1) + 1 / of_int k) * 2 ^ j \<le> y"
    by (simp add: y_def)
  then have "of_int (N - 1) * 2 ^ j + 2 ^ j / of_int k \<le> y"
    by (simp add: field_simps)
  with half have "of_int (N - 1) * 2 ^ j + 1 / 2 < y"
    by linarith
  with round_half_even_lower [of y] have "of_int (N - 1) * 2 ^ j < (of_int m :: rat)"
    unfolding m_def by linarith
  then have lower: "of_int N - 1 < (of_int m :: rat) / 2 ^ j"
    by (simp add: field_simps)
  from lower upper have "\<lceil>(of_int m :: rat) / 2 ^ j\<rceil> = N"
    by (rule ceiling_unique)
  then show ?thesis
    by (simp add: dbl [unfolded x_def] N_def x_def)
qed

section \<open>Properties of the shift generators\<close>

subsection \<open>The loops as a filtering map over the operator indices\<close>

lemma map_filter_append:
  "List.map_filter f (xs @ ys) = List.map_filter f xs @ List.map_filter f ys"
  by (simp add: List.map_filter_def)

lemma map_map_filter:
  "map g (List.map_filter f xs) = List.map_filter (\<lambda>x. map_option g (f x)) xs"
  by (induction xs) (simp_all add: List.map_filter_simps split: option.split)

lemma in_set_map_filter:
  "y \<in> set (List.map_filter f xs) \<longleftrightarrow> (\<exists>x \<in> set xs. f x = Some y)"
  by (induction xs) (auto simp add: List.map_filter_simps split: option.splits)

lemma length_map_filter_le: "length (List.map_filter f xs) \<le> length xs"
  by (induction xs) (simp_all add: List.map_filter_simps split: option.split)

lemma length_map_filter_all:
  "(\<And>x. x \<in> set xs \<Longrightarrow> f x \<noteq> None) \<Longrightarrow> length (List.map_filter f xs) = length xs"
  by (induction xs) (auto simp add: List.map_filter_simps split: option.split)

lemma shifts_loop_eq:
  "shifts_loop province operatorCount shiftDuration i shifts =
     shifts @ List.map_filter (shift_for province shiftDuration) [i..operatorCount - 1]"
proof (induction province operatorCount shiftDuration i shifts rule: shifts_loop.induct)
  case (1 province operatorCount shiftDuration i shifts)
  show ?case
  proof (cases "i < operatorCount")
    case False
    then show ?thesis
      by (simp add: shifts_loop.simps [of province operatorCount shiftDuration i shifts]
          List.map_filter_simps)
  next
    case True
    then have upto: "[i..operatorCount - 1] = i # [i + 1..operatorCount - 1]"
      by (simp add: upto_rec1)
    show ?thesis
    proof (cases "shift_for province shiftDuration i")
      case None
      with True "1.IH"(1) show ?thesis
        by (simp add: shifts_loop.simps [of province operatorCount shiftDuration i shifts]
            upto List.map_filter_simps)
    next
      case (Some s)
      with True "1.IH"(2) show ?thesis
        by (simp add: shifts_loop.simps [of province operatorCount shiftDuration i shifts]
            upto List.map_filter_simps)
    qed
  qed
qed

lemma generateOperatorShifts_eq:
  "generateOperatorShifts province operatorCount shiftDuration =
     List.map_filter (shift_for province shiftDuration) [0..operatorCount - 1]"
  by (simp add: generateOperatorShifts_def shifts_loop_eq List.map_filter_simps)

lemma page_shifts_loop_eq:
  "page_shifts_loop province operatorCount i shifts =
     shifts @ List.map_filter (page_shift_for province) [i..operatorCount - 1]"
proof (induction province operatorCount i shifts rule: page_shifts_loop.induct)
  case (1 province operatorCount i shifts)
  show ?case
  proof (cases "i < operatorCount")
    case False
    then show ?thesis
      by (simp add: page_shifts_loop.simps [of province operatorCount i shifts]
          List.map_filter_simps)
  next
    case True
    then have upto: "[i..operatorCount - 1] = i # [i + 1..operatorCount - 1]"
      by (simp add: upto_rec1)
    show ?thesis
    proof (cases "page_shift_for province i")
      case None
      with True "1.IH"(1) show ?thesis
        by (simp add: page_shifts_loop.simps [of province operatorCount i shifts]
            upto List.map_filter_simps)
    next
      case (Some s)
      with True "1.IH"(2) show ?thesis
        by (simp add: page_shifts_loop.simps [of province operatorCount i shifts]
            upto List.map_filter_simps)
    qed
  qed
qed

lemma page_generateOperatorShifts_eq:
  "page_generateOperatorShifts province operatorCount =
     List.map_filter (page_shift_for province) [0..operatorCount - 1]"
  by (simp add: page_generateOperatorShifts_def page_shifts_loop_eq List.map_filter_simps)

subsection \<open>One iteration\<close>

lemma shift_for_None_iff:
  "shift_for province shiftDuration i = None \<longleftrightarrow>
     work_start_time province + (i * 15) div 60 \<ge> work_end_time province"
  by (simp add: shift_for_def Let_def floor_div_def)

lemma shift_for_Some:
  assumes "shift_for province shiftDuration i = Some s"
  shows "shiftId s = i + 1"
    and "startTime s = formatTime (work_start_time province + (i * 15) div 60) (js_rem (i * 15) 60)"
    and "work_start_time province + (i * 15) div 60 < work_end_time province"
    and "duration s = shiftDuration"
  using assms by (auto simp add: shift_for_def Let_def floor_div_def split: if_splits)

lemma shift_for_downward:
  assumes "0 \<le> i" and "i \<le> j" and "shift_for province shiftDuration j \<noteq> None"
  shows "shift_for province shiftDuration i \<noteq> None"
proof -
  from assms(2) have "(i * 15) div 60 \<le> (j * 15) div 60"
    by (intro zdiv_mono1) simp_all
  with assms(3) show ?thesis
    by (simp add: shift_for_None_iff)
qed

lemma page_shift_for_timing:
  "map_option (\<lambda>s. (shiftId s, startTime s, endTime s, duration s)) (page_shift_for province i) =
   map_option (\<lambda>s. (shiftId s, startTime s, endTime s, duration s)) (shift_for province 420 i)"
  by (simp add: page_shift_for_def shift_for_def Let_def)

lemma page_shift_for_breaks:
  "map_option breakSchedule (page_shift_for province i) =
   map_option breakSchedule (shift_for province 300 i)"
  by (simp add: page_shift_for_def shift_for_def Let_def page_breakTime_entry_def
      breakTime_entry_def floor_div_def)

lemma page_shift_for_Some:
  assumes "page_shift_for province i = Some s"
  shows "startTime s = formatTime (work_start_time province + (i * 15) div 60) (js_rem (i * 15) 60)"
    and "endTime s =
           formatTime
             (js_rem ((work_start_time province + (i * 15) div 60) * 60 + js_rem (i * 15) 60 + 420)
                (24 * 60) div 60)
             (js_rem (js_rem ((work_start_time province + (i * 15) div 60) * 60
                              + js_rem (i * 15) 60 + 420) (24 * 60)) 60)"
  using assms by (auto simp add: page_shift_for_def Let_def floor_div_def split: if_splits)

subsection \<open>Shift identifiers\<close>

lemma shiftIds_prefix:
  assumes "0 \<le> n"
  shows "map shiftId (List.map_filter (shift_for province shiftDuration) [0..n - 1]) =
           [1..int (length (List.map_filter (shift_for province shiftDuration) [0..n - 1]))]"
  using assms
proof (induction n rule: int_ge_induct)
  case base
  show ?case by (simp add: List.map_filter_simps)
next
  case (step n)
  let ?f = "shift_for province shiftDuration"
  from step.hyps have upto: "[0..n] = [0..n - 1] @ [n]"
    by (simp add: upto_rec2)
  show ?case
  proof (cases "?f n")
    case None
    with step.IH show ?thesis
      by (simp add: upto map_filter_append List.map_filter_simps)
  next
    case (Some s)
    have "?f x \<noteq> None" if "x \<in> set [0..n - 1]" for x
      using that Some shift_for_downward [of x n province shiftDuration] by simp
    then have "length (List.map_filter ?f [0..n - 1]) = length [0..n - 1]"
      by (rule length_map_filter_all)
    with step.hyps have len: "int (length (List.map_filter ?f [0..n - 1])) = n"
      by simp
    from Some have "shiftId s = n + 1"
      by (rule shift_for_Some(1))
    moreover from step.hyps have "[1..1 + n] = [1..n] @ [n + 1]"
      using upto_rec2 [of 1 "1 + n"] by (simp add: add.commute)
    ultimately show ?thesis
      using step.IH Some len
      by (simp add: upto map_filter_append List.map_filter_simps)
  qed
qed

section \<open>The claims about shift generation\<close>

text \<open>
  Claim C4. For the province with working window 7 to 22 and three operators, and a shift
  duration of 420 minutes, \<^const>\<open>generateOperatorShifts\<close> returns exactly three shifts:
  07:00 to 14:00, 07:15 to 14:15 and 07:30 to 14:30, each with four breaks of ten minutes
  84 minutes apart; the first operator's breaks start at 08:24, 09:48, 11:12 and 12:36.
\<close>

theorem generateOperatorShifts_example_1:
  "generateOperatorShifts
     \<lparr>province_id = ident, province_name = nm, province_zone_id = z, operators = 3,
      work_start_time = 7, work_end_time = 22\<rparr> 3 420 =
   [\<lparr>shiftId = 1, startTime = ''07:00'', endTime = ''14:00'', duration = 420,
     breakSchedule =
       \<lparr>firstBreak = ''08:24-08:34'', secondBreak = ''09:48-09:58'',
        thirdBreak = ''11:12-11:22'', fourthBreak = ''12:36-12:46''\<rparr>\<rparr>,
    \<lparr>shiftId = 2, startTime = ''07:15'', endTime = ''14:15'', duration = 420,
     breakSchedule =
       \<lparr>firstBreak = ''08:39-08:49'', secondBreak = ''10:03-10:13'',
        thirdBreak = ''11:27-11:37'', fourthBreak = ''12:51-13:01''\<rparr>\<rparr>,
    \<lparr>shiftId = 3, startTime = ''07:30'', endTime = ''14:30'', duration = 420,
     breakSchedule =
       \<lparr>firstBreak = ''08:54-09:04'', secondBreak = ''10:18-10:28'',
        thirdBreak = ''11:42-11:52'', fourthBreak = ''13:06-13:16''\<rparr>\<rparr>]"
  by code_simp

text \<open>
  Claim C7. Every shift that \<^const>\<open>generateOperatorShifts\<close> emits starts at an hour
  strictly before the province's \<^const>\<open>work_end_time\<close>, no more shifts are emitted than
  operators were asked for, and a count of zero or less gives the empty list. This holds
  for every shift duration.
\<close>

theorem generateOperatorShifts_within_window:
  "(\<forall>s \<in> set (generateOperatorShifts province operatorCount shiftDuration).
      \<exists>h. hour (parseTime (startTime s)) = Some h \<and> h < work_end_time province) \<and>
   length (generateOperatorShifts province operatorCount shiftDuration) \<le> nat operatorCount \<and>
   (operatorCount \<le> 0 \<longrightarrow> generateOperatorShifts province operatorCount shiftDuration = [])"
proof (intro conjI ballI impI)
  fix s
  assume "s \<in> set (generateOperatorShifts province operatorCount shiftDuration)"
  then obtain i where i: "shift_for province shiftDuration i = Some s"
    by (auto simp add: generateOperatorShifts_eq in_set_map_filter)
  let ?h = "work_start_time province + (i * 15) div 60"
  from i have "hour (parseTime (startTime s)) = Some ?h"
    by (simp add: shift_for_Some(2) parseTime_formatTime)
  moreover from i have "?h < work_end_time province"
    by (rule shift_for_Some(3))
  ultimately show "\<exists>h. hour (parseTime (startTime s)) = Some h \<and> h < work_end_time province"
    by blast
next
  have "length (generateOperatorShifts province operatorCount shiftDuration) \<le>
          length [0..operatorCount - 1]"
    unfolding generateOperatorShifts_eq by (rule length_map_filter_le)
  then show "length (generateOperatorShifts province operatorCount shiftDuration) \<le>
          nat operatorCount"
    by simp
next
  assume "operatorCount \<le> 0"
  then show "generateOperatorShifts province operatorCount shiftDuration = []"
    by (simp add: generateOperatorShifts_def)
qed

theorem generateOperatorShifts_within_window_witness:
  "\<lparr>shiftId = 3, startTime = ''07:30'', endTime = ''14:30'', duration = 420,
     breakSchedule =
       \<lparr>firstBreak = ''08:54-09:04'', secondBreak = ''10:18-10:28'',
        thirdBreak = ''11:42-11:52'', fourthBreak = ''13:06-13:16''\<rparr>\<rparr>
     \<in> set (generateOperatorShifts (province_7_22 3) 3 420) \<and>
   (\<exists>h. hour (parseTime ''07:30'') = Some h \<and> h < 22) \<and>
   length (generateOperatorShifts (province_7_22 3) 3 420) \<le> 3 \<and>
   (0::int) \<le> 0 \<and> generateOperatorShifts (province_7_22 3) 0 420 = []"
proof -
  let ?s = "\<lparr>shiftId = 3, startTime = ''07:30'', endTime = ''14:30'', duration = 420,
     breakSchedule =
       \<lparr>firstBreak = ''08:54-09:04'', secondBreak = ''10:18-10:28'',
        thirdBreak = ''11:42-11:52'', fourthBreak = ''13:06-13:16''\<rparr>\<rparr>"
  have mem: "?s \<in> set (generateOperatorShifts (province_7_22 3) 3 420)"
    by code_simp
  have we: "work_end_time (province_7_22 3) = 22"
    by (simp add: province_7_22_def)
  note w = generateOperatorShifts_within_window [of "province_7_22 3" 3 420]
  from w mem have "\<exists>h. hour (parseTime (startTime ?s)) = Some h \<and> h < work_end_time (province_7_22 3)"
    by blast
  then have a: "\<exists>h. hour (parseTime ''07:30'') = Some h \<and> h < 22"
    by (simp add: we)
  from w have b: "length (generateOperatorShifts (province_7_22 3) 3 420) \<le> 3"
    by simp
  from generateOperatorShifts_within_window [of "province_7_22 3" 0 420]
  have c: "generateOperatorShifts (province_7_22 3) 0 420 = []"
    by simp
  from mem a b c show ?thesis by simp
qed

text \<open>
  Claim C8. The shift identifiers of the list returned by \<^const>\<open>generateOperatorShifts\<close>
  are \<open>1, 2, \<dots>, k\<close> in this order, where \<open>k\<close> is the number of shifts emitted: the
  indices that the loop skips are all at the end, because the start hour never decreases
  with the operator index.
\<close>

theorem generateOperatorShifts_shiftIds:
  "map shiftId (generateOperatorShifts province operatorCount shiftDuration) =
     [1..int (length (generateOperatorShifts province operatorCount shiftDuration))]"
proof (cases "0 \<le> operatorCount")
  case True
  then show ?thesis
    unfolding generateOperatorShifts_eq by (rule shiftIds_prefix)
next
  case False
  then show ?thesis
    by (simp add: generateOperatorShifts_def)
qed

text \<open>
  Claim C1, as amended. The generator inlined in the distribution page and the library's
  \<^const>\<open>generateOperatorShifts\<close> at its default duration emit the same shift
  identifiers, start times, end times and durations, for every province and operator
  count. The break windows are not the library's at 420 minutes: the page starts a break
  every 60 minutes, which is what the library computes for a duration of 300 minutes.
\<close>

theorem page_generator_agrees_on_timing:
  "map (\<lambda>s. (shiftId s, startTime s, endTime s, duration s))
       (page_generateOperatorShifts province operatorCount) =
   map (\<lambda>s. (shiftId s, startTime s, endTime s, duration s))
       (generateOperatorShifts province operatorCount default_shiftDuration) \<and>
   map breakSchedule (page_generateOperatorShifts province operatorCount) =
   map breakSchedule (generateOperatorShifts province operatorCount 300)"
  by (simp add: page_generateOperatorShifts_eq generateOperatorShifts_eq map_map_filter
      page_shift_for_timing page_shift_for_breaks default_shiftDuration_def)

text \<open>
  The two generators do not return the same list: for one operator in the province
  staffed from 7 to 22 the library's first break is 08:24-08:34 and the page's is
  08:00-08:10.
\<close>

theorem page_generator_differs_counterexample:
  "page_generateOperatorShifts (province_7_22 1) 1 \<noteq>
     generateOperatorShifts (province_7_22 1) 1 default_shiftDuration"
  by code_simp

text \<open>
  Claim C3, as amended. For a shift made by the page's generator the start and end
  strings parse back to numbers, and the page's test counts the shift as covering hour
  \<open>h\<close> exactly when the start hour is before \<open>h\<close>, or equals \<open>h\<close> with a start minute
  of zero, and \<open>h\<close> is before the end hour. The start minute is not ignored.
\<close>

theorem activeShifts_filter_generated:
  assumes "s \<in> set (page_generateOperatorShifts province operatorCount)"
  shows "\<exists>sh sm eh.
           parseTime (startTime s) = \<lparr>hour = Some sh, minute = Some sm\<rparr> \<and>
           hour (parseTime (endTime s)) = Some eh \<and>
           (\<forall>h. activeShifts_filter h s \<longleftrightarrow> (sh < h \<or> (sh = h \<and> sm = 0)) \<and> h < eh)"
proof -
  from assms obtain i where i: "page_shift_for province i = Some s"
    by (auto simp add: page_generateOperatorShifts_eq in_set_map_filter)
  from i have "\<exists>sh sm. parseTime (startTime s) = \<lparr>hour = Some sh, minute = Some sm\<rparr>"
    by (simp add: page_shift_for_Some(1) parseTime_formatTime)
  moreover from i have "\<exists>eh em. parseTime (endTime s) = \<lparr>hour = Some eh, minute = Some em\<rparr>"
    by (simp add: page_shift_for_Some(2) parseTime_formatTime)
  ultimately obtain sh sm eh em
    where st: "parseTime (startTime s) = \<lparr>hour = Some sh, minute = Some sm\<rparr>"
      and en: "parseTime (endTime s) = \<lparr>hour = Some eh, minute = Some em\<rparr>"
    by blast
  have "activeShifts_filter h s \<longleftrightarrow> (sh < h \<or> (sh = h \<and> sm = 0)) \<and> h < eh" for h
    by (simp add: activeShifts_filter_def st en num_less_def num_eq_def)
  with st en show ?thesis
    by simp
qed

theorem activeShifts_filter_generated_witness:
  "page_generateOperatorShifts (province_7_22 4) 4 ! 3
     \<in> set (page_generateOperatorShifts (province_7_22 4) 4) \<and>
   (\<exists>sh sm eh.
      parseTime (startTime (page_generateOperatorShifts (province_7_22 4) 4 ! 3)) =
        \<lparr>hour = Some sh, minute = Some sm\<rparr> \<and>
      hour (parseTime (endTime (page_generateOperatorShifts (province_7_22 4) 4 ! 3))) = Some eh \<and>
      (\<forall>h. activeShifts_filter h (page_generateOperatorShifts (province_7_22 4) 4 ! 3) \<longleftrightarrow>
             (sh < h \<or> (sh = h \<and> sm = 0)) \<and> h < eh))"
proof -
  have mem: "page_generateOperatorShifts (province_7_22 4) 4 ! 3
     \<in> set (page_generateOperatorShifts (province_7_22 4) 4)"
    by code_simp
  from mem activeShifts_filter_generated [OF mem] show ?thesis
    by blast
qed

text \<open>
  The fourth operator of the province staffed from 7 to 22 starts at 07:45 and ends at
  14:45, so that start hour \<open>\<le> 7 <\<close> end hour, and the test does not count the shift as
  active at hour 7.
\<close>

theorem activeShifts_filter_counterexample:
  "startTime (page_generateOperatorShifts (province_7_22 4) 4 ! 3) = ''07:45'' \<and>
   hour (parseTime (startTime (page_generateOperatorShifts (province_7_22 4) 4 ! 3))) = Some 7 \<and>
   hour (parseTime (endTime (page_generateOperatorShifts (province_7_22 4) 4 ! 3))) = Some 14 \<and>
   \<not> activeShifts_filter 7 (page_generateOperatorShifts (province_7_22 4) 4 ! 3)"
  by code_simp

section \<open>Properties of the distribution over provinces\<close>

lemma foldl_add_sum_list: "foldl (\<lambda>sum x. sum + f x) a xs = a + sum_list (map f xs)"
  for a :: int
  by (induction xs arbitrary: a) simp_all

lemma sum_list_update:
  fixes v :: int
  assumes "distinct (map fst al)" and "map_of al k = Some old"
  shows "sum_list (map snd (AList.update k v al)) = sum_list (map snd al) - old + v"
  using assms
proof (induction al)
  case Nil
  then show ?case by simp
next
  case (Cons kv al)
  show ?case
  proof (cases "fst kv = k")
    case True
    with Cons.prems show ?thesis by simp
  next
    case False
    with Cons show ?thesis by simp
  qed
qed

lemma map_of_Some_dist_get:
  "k \<in> fst ` set D \<Longrightarrow> map_of D k = Some (dist_get D k)"
  by (cases "map_of D k") (simp_all add: dist_get_def map_of_eq_None_iff)

subsection \<open>Assigning a count to every working province\<close>

lemma assign_distinct:
  "distinct (map fst D0) \<Longrightarrow>
     distinct (map fst (foldl (\<lambda>D p. AList.update (province_id p) (g p) D) D0 ps))"
  by (induction ps arbitrary: D0) (simp_all add: distinct_update)

lemma assign_keys:
  "fst ` set (foldl (\<lambda>D p. AList.update (province_id p) (g p) D) D0 ps) =
     fst ` set D0 \<union> province_id ` set ps"
  by (induction ps arbitrary: D0) (auto simp add: dom_update)

lemma assign_last:
  "map_of (foldl (\<lambda>D p. AList.update (province_id p) (g p) D) D0 ps) k =
     (if filter (\<lambda>q. province_id q = k) ps = [] then map_of D0 k
      else Some (g (last (filter (\<lambda>q. province_id q = k) ps))))"
  by (induction ps rule: rev_induct) (simp_all add: update_conv')

subsection \<open>The reduction loop\<close>

lemma reduce_loop_break:
  "assigned \<le> t \<Longrightarrow> reduce_loop t ps D assigned = (D, assigned)"
  by (cases ps) simp_all

lemma reduce_loop_sum:
  assumes "distinct (map fst D)"
    and "province_id ` set ps \<subseteq> fst ` set D"
    and "assigned = sum_list (map snd D)"
  shows "snd (reduce_loop t ps D assigned) = sum_list (map snd (fst (reduce_loop t ps D assigned)))"
  using assms
proof (induction ps arbitrary: D assigned)
  case Nil
  then show ?case by simp
next
  case (Cons p ps)
  let ?k = "province_id p"
  let ?r = "min (assigned - t) (dist_get D ?k - 1)"
  let ?D1 = "AList.update ?k (dist_get D ?k - ?r) D"
  from Cons.prems(2) have "map_of D ?k = Some (dist_get D ?k)"
    by (simp add: map_of_Some_dist_get)
  with Cons.prems(1) have "sum_list (map snd ?D1) = sum_list (map snd D) - ?r"
    by (simp add: sum_list_update)
  with Cons.prems(3) have sum1: "assigned - ?r = sum_list (map snd ?D1)"
    by simp
  from Cons.prems(1) have d1: "distinct (map fst ?D1)"
    by (rule distinct_update)
  from Cons.prems(2) have k1: "province_id ` set ps \<subseteq> fst ` set ?D1"
    by (auto simp add: dom_update)
  from Cons.prems(2) have k0: "province_id ` set ps \<subseteq> fst ` set D"
    by simp
  show ?case
  proof (cases "assigned \<le> t")
    case True
    with Cons.prems(3) show ?thesis by simp
  next
    case False
    show ?thesis
    proof (cases "?r > 0")
      case True
      with False Cons.IH [OF d1 k1 sum1] show ?thesis
        by (simp add: Let_def)
    next
      case r: False
      with False Cons.IH [OF Cons.prems(1) k0 Cons.prems(3)] show ?thesis
        by (simp add: Let_def)
    qed
  qed
qed

lemma reduce_loop_keys:
  "province_id ` set ps \<subseteq> fst ` set D \<Longrightarrow>
     fst ` set (fst (reduce_loop t ps D assigned)) = fst ` set D"
proof (induction ps arbitrary: D assigned)
  case Nil
  then show ?case by simp
next
  case (Cons p ps)
  let ?k = "province_id p"
  let ?r = "min (assigned - t) (dist_get D ?k - 1)"
  let ?D1 = "AList.update ?k (dist_get D ?k - ?r) D"
  from Cons.prems have keys1: "fst ` set ?D1 = fst ` set D"
    by (auto simp add: dom_update)
  with Cons.prems have "province_id ` set ps \<subseteq> fst ` set ?D1"
    by simp
  then have "fst ` set (fst (reduce_loop t ps ?D1 (assigned - ?r))) = fst ` set D"
    using Cons.IH [of ?D1 "assigned - ?r"] keys1 by simp
  moreover from Cons.prems have "fst ` set (fst (reduce_loop t ps D assigned)) = fst ` set D"
    using Cons.IH [of D assigned] by simp
  ultimately show ?case
    by (simp add: Let_def)
qed

lemma reduce_loop_decreasing:
  "dist_get (fst (reduce_loop t ps D assigned)) k \<le> dist_get D k"
proof (induction ps arbitrary: D assigned)
  case Nil
  then show ?case by simp
next
  case (Cons p ps)
  let ?k = "province_id p"
  let ?r = "min (assigned - t) (dist_get D ?k - 1)"
  let ?D1 = "AList.update ?k (dist_get D ?k - ?r) D"
  have "dist_get ?D1 k \<le> dist_get D k" if "0 < ?r"
    using that by (simp add: dist_get_def update_conv')
  with Cons.IH [of ?D1 "assigned - ?r"] Cons.IH [of D assigned] show ?case
    by (auto simp add: Let_def simp del: min_less_iff_conj)
qed

lemma reduce_loop_settles_all:
  "snd (reduce_loop t ps D assigned) \<le> t \<or>
     (\<forall>p \<in> set ps. dist_get (fst (reduce_loop t ps D assigned)) (province_id p) \<le> 1)"
proof (induction ps arbitrary: D assigned)
  case Nil
  then show ?case by simp
next
  case (Cons p ps)
  let ?k = "province_id p"
  let ?r = "min (assigned - t) (dist_get D ?k - 1)"
  let ?D1 = "AList.update ?k (dist_get D ?k - ?r) D"
  show ?case
  proof (cases "assigned \<le> t")
    case True
    then show ?thesis by simp
  next
    case False
    show ?thesis
    proof (cases "?r > 0")
      case True
      then have step: "reduce_loop t (p # ps) D assigned = reduce_loop t ps ?D1 (assigned - ?r)"
        using False by (simp add: Let_def)
      show ?thesis
      proof (cases "assigned - t \<le> dist_get D ?k - 1")
        case True
        then have "assigned - ?r \<le> t" by simp
        then have "reduce_loop t ps ?D1 (assigned - ?r) = (?D1, assigned - ?r)"
          by (rule reduce_loop_break)
        with step \<open>assigned - ?r \<le> t\<close> show ?thesis by simp
      next
        case r: False
        then have "dist_get D ?k - ?r = 1" by simp
        then have "dist_get ?D1 ?k = 1"
          by (simp add: dist_get_def update_conv')
        with reduce_loop_decreasing [of t ps ?D1 "assigned - ?r" ?k]
        have "dist_get (fst (reduce_loop t ps ?D1 (assigned - ?r))) ?k \<le> 1"
          by simp
        with Cons.IH [of ?D1 "assigned - ?r"] step show ?thesis
          by auto
      qed
    next
      case r: False
      then have step: "reduce_loop t (p # ps) D assigned = reduce_loop t ps D assigned"
        using False by (simp add: Let_def)
      from r False have "dist_get D ?k \<le> 1" by simp
      with reduce_loop_decreasing [of t ps D assigned ?k]
      have "dist_get (fst (reduce_loop t ps D assigned)) ?k \<le> 1"
        by simp
      with Cons.IH [of D assigned] step show ?thesis
        by auto
    qed
  qed
qed

section \<open>The claims about the distribution calculator\<close>

text \<open>
  Claim C5, as amended. For a response rate of zero or less
  \<^const>\<open>calculateOperatorsNeeded\<close> is zero. For a positive response rate it is the
  ceiling of the quotient of call volume and response rate as rounded to double
  precision; when the response rate is a whole number and the call volume is not negative
  and below \<open>2^53\<close>, this is the ceiling of the exact quotient.
\<close>

theorem calculateOperatorsNeeded_double_quotient:
  "(responseRate \<le> 0 \<longrightarrow> calculateOperatorsNeeded callVolume responseRate = 0) \<and>
   (0 < responseRate \<longrightarrow>
      calculateOperatorsNeeded callVolume responseRate =
        \<lceil>to_double (rat_of_int callVolume / responseRate)\<rceil>) \<and>
   (0 \<le> callVolume \<and> callVolume < 2 ^ 53 \<and> 0 < wholeRate \<longrightarrow>
      calculateOperatorsNeeded callVolume (rat_of_int wholeRate) =
        \<lceil>rat_of_int callVolume / rat_of_int wholeRate\<rceil>)"
proof (intro conjI impI)
  assume "responseRate \<le> 0"
  then show "calculateOperatorsNeeded callVolume responseRate = 0"
    by (simp add: calculateOperatorsNeeded_def)
next
  assume "0 < responseRate"
  then show "calculateOperatorsNeeded callVolume responseRate =
        \<lceil>to_double (rat_of_int callVolume / responseRate)\<rceil>"
    by (simp add: calculateOperatorsNeeded_def)
next
  assume "0 \<le> callVolume \<and> callVolume < 2 ^ 53 \<and> 0 < wholeRate"
  then have "\<lceil>to_double (rat_of_int callVolume / rat_of_int wholeRate)\<rceil> =
               \<lceil>rat_of_int callVolume / rat_of_int wholeRate\<rceil>"
    by (intro ceiling_to_double_quotient) simp_all
  moreover from \<open>0 \<le> callVolume \<and> callVolume < 2 ^ 53 \<and> 0 < wholeRate\<close>
  have "\<not> rat_of_int wholeRate \<le> 0" by simp
  ultimately show "calculateOperatorsNeeded callVolume (rat_of_int wholeRate) =
        \<lceil>rat_of_int callVolume / rat_of_int wholeRate\<rceil>"
    by (simp only: calculateOperatorsNeeded_def if_False)
qed

theorem calculateOperatorsNeeded_double_quotient_witness:
  "(0::rat) \<le> 0 \<and> calculateOperatorsNeeded 100 0 = 0 \<and>
   (0::rat) < 7 / 10 \<and> calculateOperatorsNeeded 7 (7 / 10) = \<lceil>to_double (rat_of_int 7 / (7 / 10))\<rceil> \<and>
   (0::int) \<le> 100 \<and> (100::int) < 2 ^ 53 \<and> (0::int) < 80 \<and>
   calculateOperatorsNeeded 100 (rat_of_int 80) = 2"
proof -
  have "\<lceil>rat_of_int 100 / rat_of_int 80\<rceil> = (2::int)"
    by (simp add: ceiling_eq_iff)
  with calculateOperatorsNeeded_double_quotient [of 0 100 80]
    calculateOperatorsNeeded_double_quotient [of "7 / 10" 7 80]
  show ?thesis by simp
qed

text \<open>
  For a rate that is not a whole number the two ceilings can differ: the double nearest
  to \<open>0.7\<close> is a little below it, the exact quotient of 7 and this rate is a little above
  10 with ceiling 11, and the rounded quotient is 10.
\<close>

theorem calculateOperatorsNeeded_rounding_counterexample:
  "to_double (7 / 10) = 3152519739159347 / 4503599627370496 \<and>
   (0::rat) < 3152519739159347 / 4503599627370496 \<and>
   calculateOperatorsNeeded 7 (3152519739159347 / 4503599627370496) = 10 \<and>
   \<lceil>rat_of_int 7 / (3152519739159347 / 4503599627370496)\<rceil> = (11::int)"
  by code_simp

text \<open>
  Claim C6, as amended. When the operators needed are at least the summed operators of
  the working provinces, \<^const>\<open>calculateOptimalDistribution\<close> maps the identifier of
  every working province to the full \<^const>\<open>operators\<close> value of the last working
  province that carries this identifier. So a working province is assigned exactly its
  own full value whenever the working provinces sharing its identifier have the same
  value, in particular whenever no other province shares it.
\<close>

theorem calculateOptimalDistribution_full_capacity:
  assumes "sum_list (map operators (filter (is_working workingHours) provinceList))
             \<le> totalOperatorsNeeded"
    and "province \<in> set provinceList"
    and "is_working workingHours province"
  shows "map_of (calculateOptimalDistribution totalOperatorsNeeded provinceList workingHours)
           (province_id province) =
         Some (operators (last (filter (\<lambda>q. province_id q = province_id province)
                                  (filter (is_working workingHours) provinceList)))) \<and>
         ((\<forall>q \<in> set provinceList.
             is_working workingHours q \<and> province_id q = province_id province
               \<longrightarrow> operators q = operators province)
          \<longrightarrow> map_of (calculateOptimalDistribution totalOperatorsNeeded provinceList
                          workingHours) (province_id province) = Some (operators province))"
proof -
  let ?wps = "filter (is_working workingHours) provinceList"
  let ?same = "filter (\<lambda>q. province_id q = province_id province) ?wps"
  from assms(2,3) have mem: "province \<in> set ?same"
    by simp
  then have same_ne: "?same \<noteq> []"
    by (metis empty_iff empty_set)
  then have ne: "length ?wps \<noteq> 0"
    by (metis filter.simps(1) length_0_conv)
  have "map_of (foldl (\<lambda>D p. AList.update (province_id p) (operators p) D) [] ?wps)
          (province_id province) = Some (operators (last ?same))"
    using same_ne by (simp add: assign_last)
  with ne assms(1) have first:
    "map_of (calculateOptimalDistribution totalOperatorsNeeded provinceList workingHours)
       (province_id province) = Some (operators (last ?same))"
    by (simp add: calculateOptimalDistribution_def Let_def foldl_add_sum_list)
  from same_ne have "last ?same \<in> set ?same"
    by (rule last_in_set)
  then have "is_working workingHours (last ?same)"
    and "province_id (last ?same) = province_id province"
    and "last ?same \<in> set provinceList"
    by simp_all
  with first show ?thesis
    by auto
qed

theorem calculateOptimalDistribution_full_capacity_witness:
  "sum_list (map operators (filter (is_working [7])
       [province_op ''A'' 6, province_op ''B'' 4])) \<le> 10 \<and>
   province_op ''A'' 6 \<in> set [province_op ''A'' 6, province_op ''B'' 4] \<and>
   is_working [7] (province_op ''A'' 6) \<and>
   filter (\<lambda>q. is_working [7] q \<and> province_id q = province_id (province_op ''A'' 6))
     [province_op ''A'' 6, province_op ''B'' 4] = [province_op ''A'' 6] \<and>
   map_of (calculateOptimalDistribution 10 [province_op ''A'' 6, province_op ''B'' 4] [7]) ''A''
     = Some 6"
proof -
  have only: "filter (\<lambda>q. is_working [7] q \<and> province_id q = province_id (province_op ''A'' 6))
     [province_op ''A'' 6, province_op ''B'' 4] = [province_op ''A'' 6]"
    by (simp add: is_working_def province_op_def)
  have h1: "sum_list (map operators (filter (is_working [7])
       [province_op ''A'' 6, province_op ''B'' 4])) \<le> 10"
    by (simp add: is_working_def province_op_def)
  have h2: "province_op ''A'' 6 \<in> set [province_op ''A'' 6, province_op ''B'' 4]"
    by simp
  have h3: "is_working [7] (province_op ''A'' 6)"
    by (simp add: is_working_def province_op_def)
  have h4: "\<forall>q \<in> set [province_op ''A'' 6, province_op ''B'' 4].
      is_working [7] q \<and> province_id q = province_id (province_op ''A'' 6)
        \<longrightarrow> operators q = operators (province_op ''A'' 6)"
    by (simp add: province_op_def)
  from calculateOptimalDistribution_full_capacity [OF h1 h2 h3] h4
  have "map_of (calculateOptimalDistribution 10 [province_op ''A'' 6, province_op ''B'' 4] [7])
          (province_id (province_op ''A'' 6)) = Some (operators (province_op ''A'' 6))"
    by blast
  then have "map_of (calculateOptimalDistribution 10
                [province_op ''A'' 6, province_op ''B'' 4] [7]) ''A'' = Some 6"
    by (simp add: province_op_def)
  with h1 h2 h3 only show ?thesis by blast
qed

text \<open>
  Two working provinces with the identifier \<open>A\<close> and 6 and 4 operators, 10 needed: the
  mapping has the one key \<open>A\<close> with the value 4, so the first province does not get its 6.
\<close>

theorem calculateOptimalDistribution_shared_id_counterexample:
  "sum_list (map operators (filter (is_working [7])
       [province_op ''A'' 6, province_op ''A'' 4])) \<le> 10 \<and>
   province_op ''A'' 6 \<in> set [province_op ''A'' 6, province_op ''A'' 4] \<and>
   is_working [7] (province_op ''A'' 6) \<and>
   map_of (calculateOptimalDistribution 10 [province_op ''A'' 6, province_op ''A'' 4] [7])
     (province_id (province_op ''A'' 6)) \<noteq> Some (operators (province_op ''A'' 6))"
  by code_simp

text \<open>
  Claim C2, as amended. For every list of provinces, when the operators needed are not
  negative and fewer than the summed operators of the working provinces, the counts that
  \<^const>\<open>calculateOptimalDistribution\<close> assigns sum to at most the operators needed, or
  else every working province is left with at most one operator: the reduction takes
  \<open>min(excess, assigned - 1)\<close> from a province and so never goes below one.
\<close>

theorem calculateOptimalDistribution_reconciled:
  assumes "0 \<le> totalOperatorsNeeded"
    and "totalOperatorsNeeded
           < sum_list (map operators (filter (is_working workingHours) provinceList))"
  shows "assigned_total (calculateOptimalDistribution totalOperatorsNeeded provinceList workingHours)
           \<le> totalOperatorsNeeded \<or>
         (\<forall>province \<in> set (filter (is_working workingHours) provinceList).
            \<exists>count. map_of (calculateOptimalDistribution totalOperatorsNeeded provinceList
                               workingHours) (province_id province) = Some count \<and>
                    count \<le> 1)"
proof -
  let ?t = totalOperatorsNeeded
  let ?wps = "filter (is_working workingHours) provinceList"
  let ?avail = "foldl (\<lambda>sum province. sum + operators province) 0 ?wps"
  let ?D = "foldl (\<lambda>distribution province.
                     AList.update (province_id province)
                       (proportional_share ?t ?avail province) distribution) [] ?wps"
  let ?a = "foldl (\<lambda>sum count. sum + count) 0 (map snd ?D)"
  let ?sorted = "sort_key (\<lambda>province. - dist_get ?D (province_id province)) ?wps"
  let ?res = "reduce_loop ?t ?sorted ?D ?a"
  from assms(2) have avail: "\<not> ?avail \<le> ?t"
    by (simp add: foldl_add_sum_list)
  from assms(1,2) have ne: "length ?wps \<noteq> 0"
    by auto
  have a: "?a = sum_list (map snd ?D)"
    using foldl_add_sum_list [of "\<lambda>x. x" 0 "map snd ?D"] by simp
  show ?thesis
  proof (cases "?a > ?t")
    case False
    with ne avail have "calculateOptimalDistribution ?t provinceList workingHours = ?D"
      by (simp add: calculateOptimalDistribution_def Let_def)
    with False a show ?thesis
      by (simp add: assigned_total_def)
  next
    case True
    with ne avail have res: "calculateOptimalDistribution ?t provinceList workingHours = fst ?res"
      by (simp add: calculateOptimalDistribution_def Let_def)
    have dD: "distinct (map fst ?D)"
      by (rule assign_distinct) simp
    have keys: "province_id ` set ?sorted \<subseteq> fst ` set ?D"
      by (simp add: assign_keys)
    then have "fst ` set (fst ?res) = fst ` set ?D"
      by (rule reduce_loop_keys)
    with keys have present:
      "map_of (fst ?res) (province_id p) = Some (dist_get (fst ?res) (province_id p))"
      if "p \<in> set ?wps" for p
      using that map_of_Some_dist_get [of "province_id p" "fst ?res"] by auto
    have "snd ?res = sum_list (map snd (fst ?res))"
      using dD keys a by (rule reduce_loop_sum)
    moreover have "snd ?res \<le> ?t \<or>
        (\<forall>p \<in> set ?sorted. dist_get (fst ?res) (province_id p) \<le> 1)"
      by (rule reduce_loop_settles_all)
    ultimately have "sum_list (map snd (fst ?res)) \<le> ?t \<or>
        (\<forall>p \<in> set ?wps. dist_get (fst ?res) (province_id p) \<le> 1)"
      by auto
    with present show ?thesis
      unfolding res assigned_total_def by blast
  qed
qed

theorem calculateOptimalDistribution_reconciled_witness:
  "(0::int) \<le> 4 \<and>
   4 < sum_list (map operators (filter (is_working [7])
         [province_op ''A'' 5, province_op ''B'' 5, province_op ''C'' 5])) \<and>
   (assigned_total (calculateOptimalDistribution 4
        [province_op ''A'' 5, province_op ''B'' 5, province_op ''C'' 5] [7]) \<le> 4 \<or>
    (\<forall>province \<in> set (filter (is_working [7])
         [province_op ''A'' 5, province_op ''B'' 5, province_op ''C'' 5]).
       \<exists>count. map_of (calculateOptimalDistribution 4
           [province_op ''A'' 5, province_op ''B'' 5, province_op ''C'' 5] [7])
         (province_id province) = Some count \<and> count \<le> 1))"
proof -
  have h1: "(0::int) \<le> 4" by simp
  have h2: "4 < sum_list (map operators (filter (is_working [7])
         [province_op ''A'' 5, province_op ''B'' 5, province_op ''C'' 5]))"
    by (simp add: is_working_def province_op_def)
  from h1 h2 calculateOptimalDistribution_reconciled [OF h1 h2] show ?thesis
    by blast
qed

text \<open>
  With one operator needed and two working provinces of one operator each, both keep
  their operator and two are assigned.
\<close>

theorem calculateOptimalDistribution_overshoot_counterexample:
  "(0::int) \<le> 1 \<and>
   1 < sum_list (map operators (filter (is_working [7])
         [province_op ''A'' 1, province_op ''B'' 1])) \<and>
   \<not> assigned_total
        (calculateOptimalDistribution 1 [province_op ''A'' 1, province_op ''B'' 1] [7]) \<le> 1"
  by code_simp

text \<open>
  An input on which rounding shows: 25 needed over provinces of 14 and 36 operators. The
  share \<open>14 / 50\<close> times 25 is a little above 7 in double precision, so the first
  province gets 8 and the second is reduced from 18 to 17.
\<close>

lemma calculateOptimalDistribution_rounding_example:
  "calculateOptimalDistribution 25 [province_op ''A'' 14, province_op ''B'' 36] [7] =
     [(''A'', 8), (''B'', 17)]"
  by code_simp

section \<open>The claims about the distribution page\<close>

lemma slice0_nonneg: "0 \<le> k \<Longrightarrow> slice0 k xs = take (nat k) xs"
  by (simp add: slice0_def)

lemma set_slice0_filter: "set (slice0 k (filter P xs)) \<subseteq> set xs"
  by (auto simp add: slice0_def dest: in_set_takeD)

lemma nth_newDistribution_of:
  assumes "k < 15"
  shows "newDistribution_of zone callVolumeData parameters ! k =
     \<lparr>hour_dp = int k + 7,
      label = toString (int k + 7) @ '':00 - '' @ toString (int k + 7 + 1) @ '':00'',
      totalCallVolume = callVolume_at callVolumeData (int k + 7),
      provinces_dp =
        map (provinceDistribution_at zone (averageResponseRate_of parameters)
               (standardBreakTime_of parameters) (allOperatorShifts_of zone)
               (callVolume_at callVolumeData (int k + 7)) (int k + 7))
          (provinces zone)\<rparr>"
  using assms by (simp add: newDistribution_of_def workingHours_page_def Let_def)

text \<open>
  Claim C9. With indices that exist, \<^const>\<open>handleOperatorChange\<close> returns a state whose
  stored rosters \<^const>\<open>operatorShifts\<close> are those of the state before, and the entry's
  displayed shift list is the province's stored roster filtered to the hour and cut to
  the new operator count; every shift shown is one of the stored roster.
\<close>

theorem handleOperatorChange_frame:
  assumes "hourIndex < length (distribution st)"
    and "provinceIndex < length (provinces_dp (distribution st ! hourIndex))"
    and "case find (\<lambda>z. zone_id z = selectedZone st) (zones st) of
           None \<Rightarrow> True | Some z \<Rightarrow> provinceIndex < length (provinces z)"
  shows "\<exists>st'. handleOperatorChange hourIndex provinceIndex change st = Some st' \<and>
           operatorShifts st' = operatorShifts st \<and>
           (let old = provinces_dp (distribution st ! hourIndex) ! provinceIndex;
                entry = provinces_dp (distribution st' ! hourIndex) ! provinceIndex;
                roster = shifts_of (operatorShifts st) (provinceId old)
            in provinceId entry = provinceId old \<and>
               0 \<le> operators_pd entry \<and>
               operatorShifts_pd entry =
                 take (nat (operators_pd entry))
                   (filter (activeShifts_filter (hour_dp (distribution st ! hourIndex))) roster) \<and>
               set (operatorShifts_pd entry) \<subseteq> set roster)"
proof -
  let ?period = "distribution st ! hourIndex"
  let ?old = "provinces_dp ?period ! provinceIndex"
  let ?zone = "find (\<lambda>z. zone_id z = selectedZone st) (zones st)"
  let ?max = "case ?zone of None \<Rightarrow> 0 | Some z \<Rightarrow> operators (provinces z ! provinceIndex)"
  let ?new = "max 0 (min (operators_pd ?old + change) ?max)"
  let ?roster = "shifts_of (operatorShifts st) (provinceId ?old)"
  let ?active = "slice0 ?new (filter (activeShifts_filter (hour_dp ?period)) ?roster)"
  let ?entry = "?old\<lparr>operators_pd := ?new, breakTime := floor_div ?new 6 * 10,
                      operatorShifts_pd := ?active\<rparr>"
  let ?st' = "st\<lparr>distribution :=
                   (distribution st)[hourIndex :=
                      ?period\<lparr>provinces_dp := (provinces_dp ?period)[provinceIndex := ?entry]\<rparr>]\<rparr>"
  from assms(3) have ok: "\<not> (case ?zone of None \<Rightarrow> False
                               | Some z \<Rightarrow> provinceIndex \<ge> length (provinces z))"
    by (simp split: option.splits)
  from assms(1,2) ok have run: "handleOperatorChange hourIndex provinceIndex change st = Some ?st'"
    unfolding handleOperatorChange_def Let_def by simp
  let ?e = "provinces_dp (distribution ?st' ! hourIndex) ! provinceIndex"
  from assms(1,2) have entry: "?e = ?entry"
    by simp
  have c1: "operatorShifts ?st' = operatorShifts st"
    by simp
  have c2: "provinceId ?e = provinceId ?old"
    unfolding entry by simp
  have ops: "operators_pd ?e = ?new"
    unfolding entry by simp
  have c3: "0 \<le> operators_pd ?e"
    unfolding ops by simp
  have "operatorShifts_pd ?e = ?active"
    unfolding entry by simp
  also have "\<dots> = take (nat ?new) (filter (activeShifts_filter (hour_dp ?period)) ?roster)"
    by (rule slice0_nonneg) simp
  finally have c4: "operatorShifts_pd ?e =
      take (nat (operators_pd ?e)) (filter (activeShifts_filter (hour_dp ?period)) ?roster)"
    unfolding ops .
  have c5: "set (operatorShifts_pd ?e) \<subseteq> set ?roster"
    unfolding c4 by (auto dest: in_set_takeD)
  from run c1 c2 c3 c4 c5 show ?thesis
    unfolding Let_def by blast
qed

theorem handleOperatorChange_frame_witness:
  "(0::nat) < length (distribution calculated_state) \<and>
   (0::nat) < length (provinces_dp (distribution calculated_state ! 0)) \<and>
   (case find (\<lambda>z. zone_id z = selectedZone calculated_state) (zones calculated_state) of
      None \<Rightarrow> True | Some z \<Rightarrow> 0 < length (provinces z)) \<and>
   (\<exists>st'. handleOperatorChange 0 0 (- 3) calculated_state = Some st' \<and>
      operatorShifts st' = operatorShifts calculated_state \<and>
      (let old = provinces_dp (distribution calculated_state ! 0) ! 0;
           entry = provinces_dp (distribution st' ! 0) ! 0;
           roster = shifts_of (operatorShifts calculated_state) (provinceId old)
       in provinceId entry = provinceId old \<and>
          0 \<le> operators_pd entry \<and>
          operatorShifts_pd entry =
            take (nat (operators_pd entry))
              (filter (activeShifts_filter (hour_dp (distribution calculated_state ! 0))) roster) \<and>
          set (operatorShifts_pd entry) \<subseteq> set roster))"
proof -
  have h1: "(0::nat) < length (distribution calculated_state)"
    by (simp add: calculated_state_def)
  have h2: "(0::nat) < length (provinces_dp (distribution calculated_state ! 0))"
    by (simp add: calculated_state_def)
  have h3: "case find (\<lambda>z. zone_id z = selectedZone calculated_state) (zones calculated_state) of
      None \<Rightarrow> True | Some z \<Rightarrow> 0 < length (provinces z)"
    by (simp add: calculated_state_def example_zone_def)
  from h1 h2 h3 handleOperatorChange_frame [OF h1 h2 h3, of "- 3"] show ?thesis
    by blast
qed

text \<open>
  On the example the entry shows the shifts 1 to 5 at hour 8; taking three operators
  away leaves the shifts 1 and 2.
\<close>

lemma handleOperatorChange_example:
  "map shiftId (operatorShifts_pd calculated_entry) = [1, 2, 3, 4, 5] \<and>
   map_option (\<lambda>st'. map shiftId (operatorShifts_pd (provinces_dp (distribution st' ! 0) ! 0)))
     (handleOperatorChange 0 0 (- 3) calculated_state) = Some [1, 2]"
  by code_simp

lemma breakTime_provinceDistribution_at:
  "breakTime (provinceDistribution_at zone averageResponseRate standardBreakTime allOperatorShifts
       callVolume hour_arg province) =
     floor_div (provinceOperators_at zone averageResponseRate callVolume hour_arg province) 6
       * standardBreakTime"
  by (simp add: provinceDistribution_at_def Let_def)

lemma rounding_zone_operators:
  "provinceOperators_at rounding_zone 80 2800 7 (province_op ''A'' 58) = 30"
  by code_simp

lemma rounding_zone_breakTime:
  "breakTime (provinces_dp
     (distribution (handleCalculate rounding_callVolumes parameters rounding_state) ! 0) ! 0) =
   5 * standardBreakTime_of parameters"
  if "averageResponseRate_of parameters = 80"
proof -
  have "distribution (handleCalculate rounding_callVolumes parameters rounding_state) =
          newDistribution_of rounding_zone rounding_callVolumes parameters"
    by (simp add: handleCalculate_def rounding_state_def rounding_zone_def)
  moreover have "provinces rounding_zone ! 0 = province_op ''A'' 58"
    by (simp add: rounding_zone_def)
  moreover have "callVolume_at rounding_callVolumes 7 = 2800"
    by (simp add: callVolume_at_def rounding_callVolumes_def)
  moreover have "provinces rounding_zone \<noteq> []"
    by (simp add: rounding_zone_def)
  ultimately show ?thesis
    using that
    by (simp add: nth_newDistribution_of breakTime_provinceDistribution_at
        rounding_zone_operators floor_div_def nth_map)
qed

text \<open>
  Claim C10, as amended. In the entry that \<^const>\<open>handleCalculate\<close> produces for hour
  \<open>7 + k\<close> and the \<open>i\<close>-th province of the zone, \<^const>\<open>breakTime\<close> is \<open>floor(n / 6)\<close>
  times the stored \<^const>\<open>standard_break_time\<close>, or times 10 when no parameters are
  stored or the stored value is zero. Here \<open>n\<close> is the operator count computed before
  the roster is filtered: \<open>min(ceil(totalOperatorsNeeded * share), operators)\<close> when the
  province works at that hour and zero otherwise, with the total needed, the share and
  the product each rounded to double precision. The \<^const>\<open>operators_pd\<close> field is the
  length of the filtered list, which is another number.
\<close>

theorem handleCalculate_breakTime:
  assumes "selectedZone st \<noteq> []"
    and "find (\<lambda>z. zone_id z = selectedZone st) (zones st) = Some zone"
    and "k < 15"
    and "i < length (provinces zone)"
  shows "let period = distribution (handleCalculate callVolumeData parameters st) ! k;
             entry = provinces_dp period ! i;
             province = provinces zone ! i;
             h = hour_dp period;
             averageResponseRate =
               (case parameters of None \<Rightarrow> 80
                | Some ps \<Rightarrow>
                    if average_response_rate ps = 0 then 80 else average_response_rate ps);
             standardBreakTime =
               (case parameters of None \<Rightarrow> 10
                | Some ps \<Rightarrow> if standard_break_time ps = 0 then 10 else standard_break_time ps);
             totalOperatorsNeeded =
               \<lceil>to_double (rat_of_int (totalCallVolume period) / rat_of_int averageResponseRate)\<rceil>;
             totalProvinceOperators = sum_list (map operators (provinces zone));
             provinceShare =
               (if totalProvinceOperators > 0
                then to_double (rat_of_int (operators province)
                                / rat_of_int totalProvinceOperators)
                else 0);
             n = (if work_start_time province \<le> h \<and> h < work_end_time province
                  then min \<lceil>to_double (rat_of_int totalOperatorsNeeded * provinceShare)\<rceil>
                         (operators province)
                  else 0)
         in h = int k + 7 \<and>
            totalCallVolume period = callVolume_at callVolumeData h \<and>
            provinceId entry = province_id province \<and>
            breakTime entry = (n div 6) * standardBreakTime \<and>
            operators_pd entry = int (length (operatorShifts_pd entry))"
proof -
  from assms(1,2) have "distribution (handleCalculate callVolumeData parameters st) =
      newDistribution_of zone callVolumeData parameters"
    by (simp add: handleCalculate_def)
  with assms(3,4) show ?thesis
    by (simp add: nth_newDistribution_of provinceDistribution_at_def provinceOperators_at_def
        averageResponseRate_of_def standardBreakTime_of_def
        Let_def floor_div_def foldl_add_sum_list)
qed

theorem handleCalculate_breakTime_witness:
  "selectedZone rounding_state \<noteq> [] \<and>
   find (\<lambda>z. zone_id z = selectedZone rounding_state) (zones rounding_state)
     = Some rounding_zone \<and>
   (0::nat) < 15 \<and> (0::nat) < length (provinces rounding_zone) \<and>
   breakTime (provinces_dp (distribution
     (handleCalculate rounding_callVolumes (Some (stored_parameters 15)) rounding_state) ! 0) ! 0)
     = 75 \<and>
   (let period = distribution
          (handleCalculate rounding_callVolumes (Some (stored_parameters 15)) rounding_state) ! 0;
        entry = provinces_dp period ! 0;
        province = provinces rounding_zone ! 0;
        h = hour_dp period;
        averageResponseRate =
          (case Some (stored_parameters 15) of None \<Rightarrow> 80
           | Some ps \<Rightarrow> if average_response_rate ps = 0 then 80 else average_response_rate ps);
        standardBreakTime =
          (case Some (stored_parameters 15) of None \<Rightarrow> 10
           | Some ps \<Rightarrow> if standard_break_time ps = 0 then 10 else standard_break_time ps);
        totalOperatorsNeeded =
          \<lceil>to_double (rat_of_int (totalCallVolume period) / rat_of_int averageResponseRate)\<rceil>;
        totalProvinceOperators = sum_list (map operators (provinces rounding_zone));
        provinceShare =
          (if totalProvinceOperators > 0
           then to_double (rat_of_int (operators province) / rat_of_int totalProvinceOperators)
           else 0);
        n = (if work_start_time province \<le> h \<and> h < work_end_time province
             then min \<lceil>to_double (rat_of_int totalOperatorsNeeded * provinceShare)\<rceil>
                    (operators province)
             else 0)
    in h = int 0 + 7 \<and>
       totalCallVolume period = callVolume_at rounding_callVolumes h \<and>
       provinceId entry = province_id province \<and>
       breakTime entry = (n div 6) * standardBreakTime \<and>
       operators_pd entry = int (length (operatorShifts_pd entry)))"
proof -
  have h1: "selectedZone rounding_state \<noteq> []"
    by (simp add: rounding_state_def)
  have h2: "find (\<lambda>z. zone_id z = selectedZone rounding_state) (zones rounding_state)
              = Some rounding_zone"
    by (simp add: rounding_state_def rounding_zone_def)
  have h3: "(0::nat) < 15" by simp
  have h4: "(0::nat) < length (provinces rounding_zone)"
    by (simp add: rounding_zone_def)
  have h5: "breakTime (provinces_dp (distribution
     (handleCalculate rounding_callVolumes (Some (stored_parameters 15)) rounding_state) ! 0) ! 0)
     = 75"
    by (simp add: rounding_zone_breakTime averageResponseRate_of_def standardBreakTime_of_def
        stored_parameters_def)
  from h1 h2 h3 h4 h5
    handleCalculate_breakTime [OF h1 h2 h3 h4, of rounding_callVolumes "Some (stored_parameters 15)"]
  show ?thesis by blast
qed

text \<open>
  For provinces of 58 and 12 operators and 2800 calls at a rate of 80, the product
  \<open>35 * (58 / 70)\<close> is a little above 29 in double precision, so that \<open>n = 30\<close> and the
  break time is 50, where exact arithmetic gives 29 and 40. With a stored standard break
  time of zero the break time is still 50, not zero.
\<close>

theorem handleCalculate_breakTime_counterexample:
  "breakTime (provinces_dp (distribution
     (handleCalculate rounding_callVolumes None rounding_state) ! 0) ! 0) = 50 \<and>
   (min \<lceil>rat_of_int \<lceil>(2800::rat) / 80\<rceil> * (58 / (58 + 12))\<rceil> 58 div 6) * 10 = (40::int) \<and>
   standard_break_time (stored_parameters 0) = 0 \<and>
   breakTime (provinces_dp (distribution
     (handleCalculate rounding_callVolumes (Some (stored_parameters 0)) rounding_state) ! 0) ! 0)
     = 50"
proof -
  have a: "breakTime (provinces_dp (distribution
     (handleCalculate rounding_callVolumes None rounding_state) ! 0) ! 0) = 50"
    by (simp add: rounding_zone_breakTime averageResponseRate_of_def standardBreakTime_of_def)
  have b: "(min \<lceil>rat_of_int \<lceil>(2800::rat) / 80\<rceil> * (58 / (58 + 12))\<rceil> 58 div 6) * 10 = (40::int)"
    by code_simp
  have c: "standard_break_time (stored_parameters 0) = 0"
    by (simp add: stored_parameters_def)
  have d: "breakTime (provinces_dp (distribution
     (handleCalculate rounding_callVolumes (Some (stored_parameters 0)) rounding_state) ! 0) ! 0)
     = 50"
    by (simp add: rounding_zone_breakTime averageResponseRate_of_def standardBreakTime_of_def
        stored_parameters_def)
  from a b c d show ?thesis by simp
qed

text \<open>
  On the zone of one province with six operators, the entry of hour 8 has a break time
  of 10 from \<open>n = 6\<close>, while five shifts are active and shown.
\<close>

lemma handleCalculate_example:
  "breakTime calculated_entry = 10 \<and> operators_pd calculated_entry = 5"
  by code_simp

end
